theory Spec2Isabelle
  imports Main "HOL-Library.Sublist" "HOL-Library.List_Lexorder"
begin

section \<open>Python strings and their operations\<close>

text \<open>
  A Python \<^verbatim>\<open>str\<close> is a sequence of Unicode code points; \<^verbatim>\<open>len\<close>, slicing, \<^verbatim>\<open>split\<close>,
  \<^verbatim>\<open>replace\<close> and \<^verbatim>\<open>in\<close> all count code points. A string is therefore a list of code
  points (natural numbers). ASCII fragments of the literals of the source are written with
  \<open>asc\<close>, every other character by its code point.
\<close>

type_synonym ustr = "nat list"

definition asc :: "string \<Rightarrow> ustr" where
  "asc s = map of_char s"

text \<open>\<^verbatim>\<open>sub in s\<close>: \<open>sub\<close> occurs in \<open>s\<close> as a contiguous run.\<close>

fun contains :: "'a list \<Rightarrow> 'a list \<Rightarrow> bool" where
  "contains sub [] = (sub = [])"
| "contains sub (c # cs) = (prefix sub (c # cs) \<or> contains sub cs)"

text \<open>
  \<^verbatim>\<open>s.replace(old, new)\<close>: every non-overlapping occurrence of \<open>old\<close>, found from the
  left, is replaced. With an empty \<open>old\<close> Python puts \<open>new\<close> before every character and at
  the end.
\<close>

function replace_all :: "'a list \<Rightarrow> 'a list \<Rightarrow> 'a list \<Rightarrow> 'a list" where
  "replace_all old new [] = (if old = [] then new else [])"
| "replace_all old new (c # cs) =
     (if old = [] then new @ c # replace_all old new cs
      else if prefix old (c # cs) then new @ replace_all old new (drop (length old) (c # cs))
      else c # replace_all old new cs)"
  by pat_completeness auto
termination
  by (relation "measure (\<lambda>(old, new, s). length s)") auto

text \<open>
  \<^verbatim>\<open>s.split(sep)\<close> for a non-empty separator: the pieces between the non-overlapping
  occurrences of \<open>sep\<close>, found from the left; the result is never empty. (Python raises
  ValueError on an empty separator; the source only splits on non-empty literals, and the
  model returns the string unsplit there.)
\<close>

function py_split :: "'a list \<Rightarrow> 'a list \<Rightarrow> 'a list list" where
  "py_split sep [] = [[]]"
| "py_split sep (c # cs) =
     (if sep \<noteq> [] \<and> prefix sep (c # cs) then [] # py_split sep (drop (length sep) (c # cs))
      else (case py_split sep cs of
              [] \<Rightarrow> [[c]]
            | p # ps \<Rightarrow> (c # p) # ps))"
  by pat_completeness auto
termination
  by (relation "measure (\<lambda>(sep, s). length s)") auto

text \<open>\<^verbatim>\<open>sep.join(xs)\<close>.\<close>

fun py_join :: "'a list \<Rightarrow> 'a list list \<Rightarrow> 'a list" where
  "py_join sep [] = []"
| "py_join sep [x] = x"
| "py_join sep (x # y # ys) = x @ sep @ py_join sep (y # ys)"

text \<open>
  \<^verbatim>\<open>str.isspace\<close> of one character, and \<^verbatim>\<open>s.strip()\<close>: the code points Python treats as
  white space are removed from both ends.
\<close>

definition is_space :: "nat \<Rightarrow> bool" where
  "is_space c = ((9 \<le> c \<and> c \<le> 13) \<or> (28 \<le> c \<and> c \<le> 32) \<or> c = 133 \<or> c = 160 \<or> c = 5760
     \<or> (8192 \<le> c \<and> c \<le> 8202) \<or> c = 8232 \<or> c = 8233 \<or> c = 8239 \<or> c = 8287 \<or> c = 12288)"

definition strip :: "ustr \<Rightarrow> ustr" where
  "strip s = rev (dropWhile is_space (rev (dropWhile is_space s)))"

text \<open>\<^verbatim>\<open>str(n)\<close> of an integer, as an f-string prints it.\<close>

function dec_digits :: "nat \<Rightarrow> ustr" where
  "dec_digits n = (if n < 10 then [48 + n] else dec_digits (n div 10) @ [48 + n mod 10])"
  by pat_completeness auto
termination
  by (relation "measure id") auto

definition str_int :: "int \<Rightarrow> ustr" where
  "str_int i = (if i < 0 then 45 # dec_digits (nat (- i)) else dec_digits (nat i))"

text \<open>
  A dictionary of lists, in insertion order (a Python \<^verbatim>\<open>dict\<close> keeps it), as an association
  list with distinct keys. \<open>dict_append k v d\<close> is \<^verbatim>\<open>d[k].append(v)\<close> after the key has
  been given an empty list if it was missing; the lookup \<^verbatim>\<open>d[k]\<close> is \<open>map_of d k\<close>.
\<close>

fun dict_append :: "'k \<Rightarrow> 'v \<Rightarrow> ('k \<times> 'v list) list \<Rightarrow> ('k \<times> 'v list) list" where
  "dict_append k v [] = [(k, [v])]"
| "dict_append k v ((k', vs) # rest) =
     (if k' = k then (k', vs @ [v]) # rest else (k', vs) # dict_append k v rest)"

datatype py_error =
    ValueError | OverflowError | KeyError | TypeError | AttributeError | YAMLError
  | FileNotFoundError | OSError

section \<open>The archive store\<close>

text \<open>
  The store of \<^verbatim>\<open>TopicStorage\<close>: the file \<^verbatim>\<open>base_dir/<topic_id>/<date>.md\<close> is the entry at
  \<open>(topic_id, date)\<close>; \<open>None\<close> is a file that does not exist.
\<close>

type_synonym archive = "ustr \<times> ustr \<Rightarrow> ustr option"

definition read_topic_file :: "archive \<Rightarrow> ustr \<Rightarrow> ustr \<Rightarrow> ustr option" where
  "read_topic_file fs topic_id date = fs (topic_id, date)"

section \<open>The history summarizer (summarizer.py)\<close>

text \<open>
  A \<^verbatim>\<open>datetime\<close> at midnight is its proleptic Gregorian ordinal: day 1 is 0001-01-01
  (\<^verbatim>\<open>datetime.min\<close>), day 3652059 is 9999-12-31 (\<^verbatim>\<open>datetime.max\<close>). Subtracting a
  \<^verbatim>\<open>timedelta(days=i)\<close> raises OverflowError when the result leaves that range, and so
  does a \<^verbatim>\<open>timedelta\<close> of more than 999999999 days.
  \<^verbatim>\<open>datetime.strptime(_, "%Y-%m-%d")\<close> and \<^verbatim>\<open>strftime("%Y-%m-%d")\<close> belong to the Python
  library; the model takes them as the parameters \<open>strptime\<close> (\<open>None\<close>: ValueError) and
  \<open>strftime\<close>.
\<close>

definition MINORD :: int where
  "MINORD = 1"

definition MAXORD :: int where
  "MAXORD = 3652059"

definition sub_days :: "int \<Rightarrow> int \<Rightarrow> py_error + int" where
  "sub_days d i =
     (if i < - 999999999 \<or> 999999999 < i then Inl OverflowError
      else if d - i < MINORD \<or> MAXORD < d - i then Inl OverflowError
      else Inr (d - i))"

text \<open>
  The loop of \<^verbatim>\<open>_get_date_range\<close> over \<^verbatim>\<open>range(start_offset, days + start_offset)\<close>,
  appending one formatted date per round.
\<close>

fun date_loop :: "(int \<Rightarrow> ustr) \<Rightarrow> int \<Rightarrow> int list \<Rightarrow> ustr list \<Rightarrow> py_error + ustr list" where
  "date_loop strftime end [] dates = Inr dates"
| "date_loop strftime end (i # rest) dates =
     (case sub_days end i of
        Inl e \<Rightarrow> Inl e
      | Inr d \<Rightarrow> date_loop strftime end rest (dates @ [strftime d]))"

definition get_date_range ::
  "(ustr \<Rightarrow> int option) \<Rightarrow> (int \<Rightarrow> ustr) \<Rightarrow> ustr \<Rightarrow> int \<Rightarrow> bool \<Rightarrow> py_error + ustr list" where
  "get_date_range strptime strftime end_date days exclude_current =
     (case strptime end_date of
        None \<Rightarrow> Inl ValueError
      | Some end \<Rightarrow>
          (let start_offset = (if exclude_current then 1 else 0)
           in date_loop strftime end [start_offset .. days + start_offset - 1] []))"

text \<open>
  An instance of the two library functions for the canonical, zero-padded form
  \<^verbatim>\<open>YYYY-MM-DD\<close> with ASCII digits, by the algorithms of CPython's \<^verbatim>\<open>datetime\<close> module
  (\<^verbatim>\<open>_ymd2ord\<close>, \<^verbatim>\<open>_ord2ymd\<close>). It is used to run the model on concrete dates.
\<close>

definition is_leap :: "int \<Rightarrow> bool" where
  "is_leap y = (y mod 4 = 0 \<and> (y mod 100 \<noteq> 0 \<or> y mod 400 = 0))"

definition days_before_year :: "int \<Rightarrow> int" where
  "days_before_year y = (y - 1) * 365 + (y - 1) div 4 - (y - 1) div 100 + (y - 1) div 400"

definition days_in_month :: "int \<Rightarrow> int \<Rightarrow> int" where
  "days_in_month y m =
     (if m = 2 then (if is_leap y then 29 else 28)
      else if m = 4 \<or> m = 6 \<or> m = 9 \<or> m = 11 then 30 else 31)"

definition days_before_month :: "int \<Rightarrow> int \<Rightarrow> int" where
  "days_before_month y m = sum_list (map (days_in_month y) [1 .. m - 1])"

definition ymd2ord :: "int \<Rightarrow> int \<Rightarrow> int \<Rightarrow> int" where
  "ymd2ord y m d = days_before_year y + days_before_month y m + d"

definition digit_val :: "nat \<Rightarrow> int option" where
  "digit_val c = (if 48 \<le> c \<and> c \<le> 57 then Some (int c - 48) else None)"

fun digits_val :: "int \<Rightarrow> ustr \<Rightarrow> int option" where
  "digits_val acc [] = Some acc"
| "digits_val acc (c # cs) =
     (case digit_val c of None \<Rightarrow> None | Some v \<Rightarrow> digits_val (10 * acc + v) cs)"

definition strptime_iso :: "ustr \<Rightarrow> int option" where
  "strptime_iso s =
     (if length s = 10 \<and> s ! 4 = 45 \<and> s ! 7 = 45 then
        (case (digits_val 0 (take 4 s), digits_val 0 (take 2 (drop 5 s)),
               digits_val 0 (drop 8 s)) of
           (Some y, Some m, Some d) \<Rightarrow>
             (if 1 \<le> y \<and> 1 \<le> m \<and> m \<le> 12 \<and> 1 \<le> d \<and> d \<le> days_in_month y m
              then Some (ymd2ord y m d) else None)
         | _ \<Rightarrow> None)
      else None)"

definition ord2ymd :: "int \<Rightarrow> int \<times> int \<times> int" where
  "ord2ymd ord =
     (let n = ord - 1;
          n400 = n div 146097; n = n mod 146097;
          n100 = n div 36524; n = n mod 36524;
          n4 = n div 1461; n = n mod 1461;
          n1 = n div 365; n = n mod 365;
          year = n400 * 400 + 1 + n100 * 100 + n4 * 4 + n1
      in if n1 = 4 \<or> n100 = 4 then (year - 1, 12, 31)
         else
           (let leapyear = (n1 = 3 \<and> (n4 \<noteq> 24 \<or> n100 = 3));
                month = (n + 50) div 32;
                preceding = days_before_month (if leapyear then 4 else 1) month
            in if preceding > n
               then (year, month - 1,
                     n - (preceding - days_in_month (if leapyear then 4 else 1) (month - 1)) + 1)
               else (year, month, n - preceding + 1)))"

definition zero_pad :: "nat \<Rightarrow> ustr \<Rightarrow> ustr" where
  "zero_pad w s = replicate (w - length s) 48 @ s"

definition strftime_iso :: "int \<Rightarrow> ustr" where
  "strftime_iso ord =
     (case ord2ymd ord of
        (y, m, d) \<Rightarrow> zero_pad 4 (str_int y) @ [45] @ zero_pad 2 (str_int m) @ [45]
                       @ zero_pad 2 (str_int d))"

section \<open>The legacy timeline router (router.py)\<close>

text \<open>
  A trend as \<^verbatim>\<open>get_all_trends\<close> builds it: \<^verbatim>\<open>url\<close> and \<^verbatim>\<open>summary\<close> may be \<^verbatim>\<open>None\<close>.
\<close>

record trend =
  trend_title :: ustr
  trend_url :: "ustr option"
  trend_date :: ustr
  trend_source :: ustr
  trend_summary :: "ustr option"

text \<open>
  A topic of \<^verbatim>\<open>topics.yaml\<close> as the router reads it: \<^verbatim>\<open>topic_config['name']\<close> raises
  KeyError when the key is missing, \<^verbatim>\<open>topic_config.get('keywords', [])\<close> does not.
\<close>

record router_topic =
  rt_name :: "ustr option"
  rt_keywords :: "ustr list option"

text \<open>The literals of the timeline format.\<close>

definition LINK_MARK :: ustr where
  \<comment> \<open>\<^verbatim>\<open>**<U+94FE><U+63A5>**<U+FF1A>\<close>, the "link" marker followed by a full-width colon\<close>
  "LINK_MARK = asc ''**'' @ [38142, 25509] @ asc ''**'' @ [65306]"

definition TITLE_MARK :: ustr where
  "TITLE_MARK = asc ''**'' @ [26631, 39064] @ asc ''**'' @ [65306]"

definition SOURCE_MARK :: ustr where
  "SOURCE_MARK = asc ''**'' @ [26469, 28304] @ asc ''**'' @ [65306]"

definition SUMMARY_MARK :: ustr where
  "SUMMARY_MARK = asc ''**'' @ [25688, 35201] @ asc ''**'' @ [65306]"

definition NO_LINK :: ustr where
  "NO_LINK = [65288, 26080, 38142, 25509, 65289]"

definition NO_SUMMARY :: ustr where
  "NO_SUMMARY = [65288, 26080, 25688, 35201, 65289]"

definition JUDGEMENT_BLOCK :: ustr where
  "JUDGEMENT_BLOCK = [10] @ asc ''**'' @ [25105, 30340, 21028, 26029] @ asc ''**'' @ [65306, 32, 32, 10,
     65288, 30041, 31354, 65292, 20379, 20154, 24037, 34917, 20805, 65289, 10]"

text \<open>
  \<^verbatim>\<open>re.findall(r'\*\*..\*\*:(https?://[^\s\n]+)', content)\<close>. \<open>url_match s\<close> is the match of
  the pattern at the start of \<open>s\<close> (its group 1): the marker, \<^verbatim>\<open>http\<close> or \<^verbatim>\<open>https\<close>,
  \<^verbatim>\<open>://\<close>, then the longest non-empty run of characters that are not white space.
  \<^verbatim>\<open>findall\<close> tries every position from the left and resumes after the end of a match.
\<close>

definition url_match :: "ustr \<Rightarrow> ustr option" where
  "url_match s =
     (if prefix LINK_MARK s then
        (let r = drop (length LINK_MARK) s;
             scheme = (if prefix (asc ''https://'') r then asc ''https://''
                       else if prefix (asc ''http://'') r then asc ''http://'' else [])
         in if scheme = [] then None
            else (let run = takeWhile (\<lambda>c. \<not> is_space c) (drop (length scheme) r)
                  in if run = [] then None else Some (scheme @ run)))
      else None)"

function findall_urls :: "ustr \<Rightarrow> ustr list" where
  "findall_urls [] = []"
| "findall_urls (c # cs) =
     (case url_match (c # cs) of
        Some u \<Rightarrow> u # findall_urls (drop (length LINK_MARK + length u) (c # cs))
      | None \<Rightarrow> findall_urls cs)"
  by pat_completeness auto
termination
  by (relation "measure length") (auto simp: LINK_MARK_def asc_def)

text \<open>The timeline file of a topic is \<open>None\<close> when it does not exist.\<close>

definition load_existing_urls :: "ustr option \<Rightarrow> ustr set" where
  "load_existing_urls timeline_file =
     (case timeline_file of
        None \<Rightarrow> {}
      | Some content \<Rightarrow> set (findall_urls content))"

text \<open>The filter loop of \<^verbatim>\<open>generate_timeline\<close>.\<close>

fun new_trends_loop :: "ustr set \<Rightarrow> trend list \<Rightarrow> trend list \<Rightarrow> trend list" where
  "new_trends_loop existing_urls [] new_trends = new_trends"
| "new_trends_loop existing_urls (t # ts) new_trends =
     (case trend_url t of
        None \<Rightarrow> new_trends_loop existing_urls ts (new_trends @ [t])
      | Some u \<Rightarrow>
          if u \<notin> existing_urls then new_trends_loop existing_urls ts (new_trends @ [t])
          else new_trends_loop existing_urls ts new_trends)"

text \<open>
  \<^verbatim>\<open>group_by_date\<close> fills a \<^verbatim>\<open>defaultdict(list)\<close>: the keys in first-seen order, each with
  its trends in input order.
\<close>

fun group_by_date_loop :: "trend list \<Rightarrow> (ustr \<times> trend list) list \<Rightarrow> (ustr \<times> trend list) list" where
  "group_by_date_loop [] grouped = grouped"
| "group_by_date_loop (t # ts) grouped = group_by_date_loop ts (dict_append (trend_date t) t grouped)"

definition group_by_date :: "trend list \<Rightarrow> (ustr \<times> trend list) list" where
  "group_by_date trends = group_by_date_loop trends []"

text \<open>
  \<^verbatim>\<open>sorted(grouped.keys(), reverse=True)\<close>: strings compare by code points,
  lexicographically; the keys of a dictionary are distinct.
\<close>

definition sorted_dates_desc :: "(ustr \<times> trend list) list \<Rightarrow> ustr list" where
  "sorted_dates_desc grouped = rev (sort (map fst grouped))"

definition render_trend :: "trend \<Rightarrow> ustr" where
  "render_trend t =
     (let url = (case trend_url t of None \<Rightarrow> NO_LINK | Some u \<Rightarrow> if u = [] then NO_LINK else u);
          summary = (case trend_summary t of None \<Rightarrow> NO_SUMMARY
                     | Some x \<Rightarrow> if x = [] then NO_SUMMARY else x)
      in [10] @ TITLE_MARK @ trend_title t @ [32, 32, 10]
         @ SOURCE_MARK @ trend_source t @ [32, 32, 10]
         @ LINK_MARK @ url @ [10]
         @ [10] @ SUMMARY_MARK @ [32, 32, 10] @ summary @ [10]
         @ JUDGEMENT_BLOCK
         @ [10, 45, 45, 45, 10])"

definition render_date_section :: "(ustr \<times> trend list) list \<Rightarrow> ustr \<Rightarrow> ustr" where
  "render_date_section grouped d =
     [10] @ asc ''## '' @ d @ [10]
     @ concat (map render_trend (case map_of grouped d of None \<Rightarrow> [] | Some ts \<Rightarrow> ts))"

definition render_new_content :: "trend list \<Rightarrow> ustr" where
  "render_new_content new_trends =
     (let grouped = group_by_date new_trends
      in concat (map (render_date_section grouped) (sorted_dates_desc grouped)))"

text \<open>
  The position after the first line that starts with \<^verbatim>\<open>#\<close> (0 when there is none), and the
  content spliced in there.
\<close>

fun header_end_line :: "ustr list \<Rightarrow> nat \<Rightarrow> nat" where
  "header_end_line [] i = 0"
| "header_end_line (l # ls) i = (if prefix [35] l then i + 1 else header_end_line ls (i + 1))"

definition splice_timeline :: "ustr \<Rightarrow> ustr \<Rightarrow> ustr" where
  "splice_timeline existing_content new_content =
     (let lines = py_split [10] existing_content;
          h = header_end_line lines 0
      in py_join [10] (take h lines) @ [10] @ new_content @ py_join [10] (drop h lines))"

text \<open>
  \<^verbatim>\<open>generate_timeline\<close>. The state is the map from a topic id to the content of
  \<^verbatim>\<open>index/<topic_id>/timeline.md\<close>; the result is the state after the call, or the error
  raised. Creating the topic directory does not touch any file. The text read from a file
  is the text stored (no carriage return in it, which Python would read as a line feed),
  and the write is taken to succeed.
\<close>

definition generate_timeline ::
  "(ustr \<Rightarrow> router_topic option) \<Rightarrow> (ustr \<Rightarrow> ustr option) \<Rightarrow> ustr \<Rightarrow> trend list
     \<Rightarrow> py_error + (ustr \<Rightarrow> ustr option)" where
  "generate_timeline topics fs topic_id trends =
     (case topics topic_id of
        None \<Rightarrow> Inl KeyError
      | Some topic_config \<Rightarrow>
          (case rt_name topic_config of
             None \<Rightarrow> Inl KeyError
           | Some topic_name \<Rightarrow>
               (let existing_urls = load_existing_urls (fs topic_id);
                    new_trends = new_trends_loop existing_urls trends []
                in if new_trends = [] then Inr fs
                   else (let new_content = render_new_content new_trends;
                             final_content =
                               (case fs topic_id of
                                  Some existing_content \<Rightarrow> splice_timeline existing_content new_content
                                | None \<Rightarrow> asc ''# '' @ topic_name @ [10] @ new_content)
                         in Inr (fs(topic_id \<mapsto> final_content))))))"

text \<open>
  \<^verbatim>\<open>match_keywords\<close>. \<^verbatim>\<open>re.escape\<close> makes the keyword a literal, so the pattern is
  \<^verbatim>\<open>\b\<close>, the lower-cased keyword, \<^verbatim>\<open>\b\<close>. \<^verbatim>\<open>\b\<close> holds at a position where exactly one
  of the characters before and after it is a word character (\<^verbatim>\<open>\w\<close>); outside the
  string there is no word character. The class \<^verbatim>\<open>\w\<close> of Python (\<^verbatim>\<open>str.isalnum\<close> or an
  underscore) and \<^verbatim>\<open>str.lower\<close> are Unicode tables of the library: the parameters \<open>isw\<close>
  and \<open>lower\<close>.
\<close>

definition boundary_at :: "(nat \<Rightarrow> bool) \<Rightarrow> ustr \<Rightarrow> nat \<Rightarrow> bool" where
  "boundary_at isw t p =
     ((0 < p \<and> isw (t ! (p - 1))) \<noteq> (p < length t \<and> isw (t ! p)))"

definition pattern_matches_at :: "(nat \<Rightarrow> bool) \<Rightarrow> ustr \<Rightarrow> ustr \<Rightarrow> nat \<Rightarrow> bool" where
  "pattern_matches_at isw k t p =
     (p + length k \<le> length t \<and> take (length k) (drop p t) = k
      \<and> boundary_at isw t p \<and> boundary_at isw t (p + length k))"

definition re_search_word :: "(nat \<Rightarrow> bool) \<Rightarrow> ustr \<Rightarrow> ustr \<Rightarrow> bool" where
  "re_search_word isw k t = list_ex (pattern_matches_at isw k t) [0 ..< Suc (length t)]"

fun match_keywords :: "(nat \<Rightarrow> bool) \<Rightarrow> (ustr \<Rightarrow> ustr) \<Rightarrow> ustr \<Rightarrow> ustr list \<Rightarrow> bool" where
  "match_keywords isw lower text [] = False"
| "match_keywords isw lower text (keyword # keywords) =
     (if re_search_word isw (lower keyword) (lower text) then True
      else match_keywords isw lower text keywords)"

text \<open>
  The two tables restricted to the characters of the examples: ASCII letters, digits and
  the underscore, and the CJK unified ideographs U+4E00 to U+9FFF (letters for
  \<^verbatim>\<open>str.isalnum\<close>, unchanged by \<^verbatim>\<open>str.lower\<close>).
\<close>

definition word_char :: "nat \<Rightarrow> bool" where
  "word_char c = ((48 \<le> c \<and> c \<le> 57) \<or> (65 \<le> c \<and> c \<le> 90) \<or> c = 95 \<or> (97 \<le> c \<and> c \<le> 122)
     \<or> (19968 \<le> c \<and> c \<le> 40959))"

definition ascii_lower :: "ustr \<Rightarrow> ustr" where
  "ascii_lower s = map (\<lambda>c. if 65 \<le> c \<and> c \<le> 90 then c + 32 else c) s"

text \<open>Concrete trends and a one-topic configuration, to run the router on.\<close>

definition mk_trend :: "string \<Rightarrow> string option \<Rightarrow> string \<Rightarrow> trend" where
  "mk_trend title url date =
     \<lparr>trend_title = asc title, trend_url = map_option asc url, trend_date = asc date,
      trend_source = asc ''src1'', trend_summary = None\<rparr>"

definition example_topics :: "ustr \<Rightarrow> router_topic option" where
  "example_topics = [asc ''ai-tech'' \<mapsto> \<lparr>rt_name = Some (asc ''AI''), rt_keywords = Some [asc ''AI'']\<rparr>]"

definition example_timeline :: ustr where
  "example_timeline =
     asc ''# AI'' @ [10]
     @ render_new_content
         [mk_trend ''first'' (Some ''http://x/u1'') ''2026-01-19'',
          mk_trend ''second'' (Some ''https://x/u2'') ''2026-01-19'']"

text \<open>
  Two trends whose URL the pattern of \<^verbatim>\<open>load_existing_urls\<close> does not read back from a link
  line: one with the scheme \<^verbatim>\<open>ftp\<close>, one with a blank inside. Each comes with the timeline that
  \<^verbatim>\<open>generate_timeline\<close> writes for it on a new file, and with that timeline after the new
  content of the same trend has been put in a second time.
\<close>

definition ftp_trend :: trend where
  "ftp_trend = mk_trend ''ftp item'' (Some ''ftp://x/u9'') ''2026-01-20''"

definition ftp_timeline :: ustr where
  "ftp_timeline = asc ''# AI'' @ [10] @ render_new_content [ftp_trend]"

definition ftp_timeline_twice :: ustr where
  "ftp_timeline_twice =
     asc ''# AI'' @ [10] @ render_new_content [ftp_trend] @ render_new_content [ftp_trend]"

definition blank_trend :: trend where
  "blank_trend = mk_trend ''spaced'' (Some ''http://x/a b'') ''2026-01-20''"

definition blank_timeline :: ustr where
  "blank_timeline = asc ''# AI'' @ [10] @ render_new_content [blank_trend]"

definition blank_timeline_twice :: ustr where
  "blank_timeline_twice =
     asc ''# AI'' @ [10] @ render_new_content [blank_trend] @ render_new_content [blank_trend]"

section \<open>The topic classifier (classifier.py)\<close>

text \<open>
  The document that \<^verbatim>\<open>yaml.safe_load\<close> returns. \<open>YOther b\<close> stands for a scalar of any
  other kind (a float, a date) with its truth value \<open>b\<close>; it has no \<^verbatim>\<open>get\<close> and cannot be
  iterated.
\<close>

datatype yaml =
    YNull
  | YBool bool
  | YInt int
  | YStr ustr
  | YList "yaml list"
  | YDict "(yaml \<times> yaml) list"
  | YOther bool

text \<open>
  The configuration file as \<^verbatim>\<open>_load_topics\<close> meets it: \<open>Inaccessible\<close> when the existence test
  \<^verbatim>\<open>config_path.exists()\<close> itself raises OSError (a name longer than the file system allows,
  a directory that may not be searched); \<open>Missing\<close> when the test returns false; \<open>Unparsable\<close>
  when the file exists and opening, decoding or parsing it raises; \<open>Parsed y\<close> when
  \<^verbatim>\<open>yaml.safe_load\<close> returns \<open>y\<close>.
\<close>

datatype config_file = Inaccessible | Missing | Unparsable | Parsed yaml

text \<open>Python's truth value of a parsed value (\<^verbatim>\<open>not x\<close> is its negation).\<close>

fun truthy :: "yaml \<Rightarrow> bool" where
  "truthy YNull = False"
| "truthy (YBool b) = b"
| "truthy (YInt i) = (i \<noteq> 0)"
| "truthy (YStr s) = (s \<noteq> [])"
| "truthy (YList l) = (l \<noteq> [])"
| "truthy (YDict d) = (d \<noteq> [])"
| "truthy (YOther b) = b"

text \<open>\<^verbatim>\<open>d.get(key, default)\<close> on a dictionary with a string key.\<close>

definition dict_get :: "(yaml \<times> yaml) list \<Rightarrow> string \<Rightarrow> yaml \<Rightarrow> yaml" where
  "dict_get d key dflt = (case map_of d (YStr (asc key)) of None \<Rightarrow> dflt | Some v \<Rightarrow> v)"

text \<open>A validated topic: the dictionary that \<^verbatim>\<open>_load_topics\<close> appends.\<close>

record loaded_topic =
  lt_id :: yaml
  lt_name :: yaml
  lt_keywords :: yaml
  lt_description :: yaml
  lt_priority :: yaml

text \<open>What \<^verbatim>\<open>_load_topics\<close> prints.\<close>

datatype log_msg =
    MsgMissingFile
  | MsgEmptyConfig
  | MsgIncomplete yaml
  | MsgLoaded nat
  | MsgFailed py_error

text \<open>
  One round of the validation loop: an entry that is not a dictionary is skipped silently;
  one without a true \<^verbatim>\<open>id\<close>, \<^verbatim>\<open>name\<close> or \<^verbatim>\<open>keywords\<close> is skipped with a message; any other
  is appended, with \<^verbatim>\<open>description\<close> defaulting to the empty string and \<^verbatim>\<open>priority\<close> to
  999.
\<close>

fun validate_loop ::
  "yaml list \<Rightarrow> loaded_topic list \<times> log_msg list \<Rightarrow> loaded_topic list \<times> log_msg list" where
  "validate_loop [] acc = acc"
| "validate_loop (topic # rest) (validated_topics, log) =
     (case topic of
        YDict d \<Rightarrow>
          (let topic_id = dict_get d ''id'' (YStr []);
               name = dict_get d ''name'' (YStr []);
               keywords = dict_get d ''keywords'' (YList [])
           in if \<not> truthy topic_id \<or> \<not> truthy name \<or> \<not> truthy keywords
              then validate_loop rest (validated_topics, log @ [MsgIncomplete topic])
              else validate_loop rest
                     (validated_topics @
                        [\<lparr>lt_id = topic_id, lt_name = name, lt_keywords = keywords,
                          lt_description = dict_get d ''description'' (YStr []),
                          lt_priority = dict_get d ''priority'' (YInt 999)\<rparr>], log))
      | _ \<Rightarrow> validate_loop rest (validated_topics, log))"

text \<open>
  \<^verbatim>\<open>for topic in topics\<close>: a list yields its elements, a dictionary its keys, a string its
  characters (each a string of length one); anything else raises TypeError.
\<close>

fun py_iter :: "yaml \<Rightarrow> py_error + yaml list" where
  "py_iter (YList l) = Inr l"
| "py_iter (YDict d) = Inr (map fst d)"
| "py_iter (YStr s) = Inr (map (\<lambda>c. YStr [c]) s)"
| "py_iter _ = Inl TypeError"

text \<open>
  The body of the \<^verbatim>\<open>try\<close> block: the exception it raises (\<open>Inl\<close>), or the value it returns
  with what it printed. \<^verbatim>\<open>data.get\<close> exists only on a dictionary.
\<close>

definition load_topics_body :: "config_file \<Rightarrow> py_error + loaded_topic list \<times> log_msg list" where
  "load_topics_body f =
     (case f of
        Parsed (YDict data) \<Rightarrow>
          (let topics = dict_get data ''topics'' (YList [])
           in if \<not> truthy topics then Inr ([], [MsgEmptyConfig])
              else (case py_iter topics of
                      Inl e \<Rightarrow> Inl e
                    | Inr entries \<Rightarrow>
                        (case validate_loop entries ([], []) of
                           (validated_topics, log) \<Rightarrow>
                             Inr (validated_topics, log @ [MsgLoaded (length validated_topics)]))))
      | Parsed _ \<Rightarrow> Inl AttributeError
      | Unparsable \<Rightarrow> Inl YAMLError
      | Missing \<Rightarrow> Inl FileNotFoundError
      | Inaccessible \<Rightarrow> Inl OSError)"

text \<open>
  \<^verbatim>\<open>_load_topics\<close>, with what reaches the caller: the existence test stands before the
  \<^verbatim>\<open>try\<close>, so an OSError that it raises is not caught (\<open>Inl\<close>); a missing file gives the
  empty list, also before the \<^verbatim>\<open>try\<close>; any exception of the body is caught, printed, and
  turned into the empty list. Printing a message is taken to succeed.
\<close>

definition load_topics :: "config_file \<Rightarrow> py_error + loaded_topic list \<times> log_msg list" where
  "load_topics f =
     (if f = Inaccessible then Inl OSError
      else if f = Missing then Inr ([], [MsgMissingFile])
      else (case load_topics_body f of
              Inl e \<Rightarrow> Inr ([], [MsgFailed e])
            | Inr r \<Rightarrow> Inr r))"

text \<open>
  For classification a topic is read as \<^verbatim>\<open>topic["id"]\<close> (a string) and
  \<^verbatim>\<open>topic["keywords"]\<close> (a list of strings).
\<close>

record topic =
  tp_id :: ustr
  tp_name :: ustr
  tp_keywords :: "ustr list"
  tp_description :: ustr
  tp_priority :: int

text \<open>
  An item of a classification result, a dictionary: a hot-list item has the keys
  \<^verbatim>\<open>title, source_type, source_id, url, mobile_url, ranks, count, first_time, last_time\<close>,
  an RSS item \<^verbatim>\<open>title, source_type, source_id, url, published_at, summary, author\<close>. A key
  that is missing is \<open>None\<close>.
\<close>

record item =
  it_title :: ustr
  it_source_type :: "ustr option"
  it_source_id :: "ustr option"
  it_url :: "ustr option"
  it_mobile_url :: "ustr option"
  it_ranks :: "int list option"
  it_count :: "int option"
  it_first_time :: "ustr option"
  it_last_time :: "ustr option"
  it_published_at :: "ustr option"
  it_summary :: "ustr option"
  it_author :: "ustr option"

definition HOTLIST :: ustr where
  "HOTLIST = asc ''hotlist''"

definition RSS :: ustr where
  "RSS = asc ''rss''"

text \<open>The attributes of a raw hot-list title and of a raw RSS entry; every key may be missing.\<close>

record title_data =
  td_url :: "ustr option"
  td_mobileUrl :: "ustr option"
  td_ranks :: "int list option"
  td_count :: "int option"
  td_first_time :: "ustr option"
  td_last_time :: "ustr option"

record item_data =
  id_url :: "ustr option"
  id_published_at :: "ustr option"
  id_summary :: "ustr option"
  id_author :: "ustr option"

definition or_default :: "'a option \<Rightarrow> 'a \<Rightarrow> 'a" where
  "or_default x d = (case x of None \<Rightarrow> d | Some v \<Rightarrow> v)"

definition hotlist_item :: "ustr \<Rightarrow> ustr \<Rightarrow> title_data \<Rightarrow> item" where
  "hotlist_item src ttl d =
     \<lparr>it_title = ttl, it_source_type = Some HOTLIST, it_source_id = Some src,
      it_url = Some (or_default (td_url d) []),
      it_mobile_url = Some (or_default (td_mobileUrl d) []),
      it_ranks = Some (or_default (td_ranks d) []),
      it_count = Some (or_default (td_count d) 1),
      it_first_time = Some (or_default (td_first_time d) []),
      it_last_time = Some (or_default (td_last_time d) []),
      it_published_at = None, it_summary = None, it_author = None\<rparr>"

definition rss_item :: "ustr \<Rightarrow> ustr \<Rightarrow> item_data \<Rightarrow> item" where
  "rss_item feed ttl d =
     \<lparr>it_title = ttl, it_source_type = Some RSS, it_source_id = Some feed,
      it_url = Some (or_default (id_url d) []),
      it_mobile_url = None, it_ranks = None, it_count = None, it_first_time = None, it_last_time = None,
      it_published_at = Some (or_default (id_published_at d) []),
      it_summary = Some (or_default (id_summary d) []),
      it_author = Some (or_default (id_author d) [])\<rparr>"

text \<open>
  \<^verbatim>\<open>_match_topics\<close>. \<^verbatim>\<open>_word_matches\<close> is imported from \<^verbatim>\<open>trendradar.core.frequency\<close>, which
  is not among the sources: it is the parameter \<open>word_matches\<close>. The inner loop stops at the
  first keyword that matches (\<^verbatim>\<open>break\<close>); the outer loop visits every topic.
\<close>

fun keyword_hit :: "(ustr \<Rightarrow> ustr \<Rightarrow> bool) \<Rightarrow> ustr \<Rightarrow> ustr list \<Rightarrow> bool" where
  "keyword_hit word_matches ttl [] = False"
| "keyword_hit word_matches ttl (keyword # rest) =
     (if word_matches ttl keyword then True else keyword_hit word_matches ttl rest)"

fun match_topics_loop ::
  "(ustr \<Rightarrow> ustr \<Rightarrow> bool) \<Rightarrow> ustr \<Rightarrow> topic list \<Rightarrow> ustr list \<Rightarrow> ustr list" where
  "match_topics_loop word_matches ttl [] matched = matched"
| "match_topics_loop word_matches ttl (t # rest) matched =
     (if keyword_hit word_matches ttl (tp_keywords t)
      then match_topics_loop word_matches ttl rest (matched @ [tp_id t])
      else match_topics_loop word_matches ttl rest matched)"

definition match_topics :: "(ustr \<Rightarrow> ustr \<Rightarrow> bool) \<Rightarrow> topic list \<Rightarrow> ustr \<Rightarrow> ustr list" where
  "match_topics word_matches topics ttl = match_topics_loop word_matches ttl topics []"

text \<open>
  \<^verbatim>\<open>classify\<close>. The two inputs are dictionaries of dictionaries, read in insertion order:
  association lists. \<open>add_item\<close> is the innermost loop over the matched topic ids.
\<close>

type_synonym results = "(ustr \<times> item list) list"

definition add_item :: "item \<Rightarrow> ustr list \<Rightarrow> results \<Rightarrow> results" where
  "add_item it matched_topics results = fold (\<lambda>tid res. dict_append tid it res) matched_topics results"

definition classify_hotlist ::
  "(ustr \<Rightarrow> ustr \<Rightarrow> bool) \<Rightarrow> topic list \<Rightarrow> (ustr \<times> (ustr \<times> title_data) list) list
     \<Rightarrow> results \<Rightarrow> results" where
  "classify_hotlist word_matches topics news_items results =
     fold (\<lambda>(src, titles) res.
             fold (\<lambda>(ttl, d) res'.
                     add_item (hotlist_item src ttl d) (match_topics word_matches topics ttl) res')
                  titles res)
          news_items results"

definition classify_rss ::
  "(ustr \<Rightarrow> ustr \<Rightarrow> bool) \<Rightarrow> topic list \<Rightarrow> (ustr \<times> (ustr \<times> item_data) list) list
     \<Rightarrow> results \<Rightarrow> results" where
  "classify_rss word_matches topics rss_items results =
     fold (\<lambda>(feed, entries) res.
             fold (\<lambda>(ttl, d) res'.
                     add_item (rss_item feed ttl d) (match_topics word_matches topics ttl) res')
                  entries res)
          rss_items results"

definition classify ::
  "(ustr \<Rightarrow> ustr \<Rightarrow> bool) \<Rightarrow> topic list \<Rightarrow> (ustr \<times> (ustr \<times> title_data) list) list
     \<Rightarrow> (ustr \<times> (ustr \<times> item_data) list) list option \<Rightarrow> results" where
  "classify word_matches topics news_items rss_items =
     (if topics = [] then []
      else (let results = classify_hotlist word_matches topics news_items []
            in (case rss_items of
                  None \<Rightarrow> results
                | Some feeds \<Rightarrow> classify_rss word_matches topics feeds results)))"

text \<open>
  \<^verbatim>\<open>results.get(tid, [])\<close>: the bucket of a topic id in a classification result.
\<close>

definition bucket :: "('k \<times> 'v list) list \<Rightarrow> 'k \<Rightarrow> 'v list" where
  "bucket res tid = (case map_of res tid of None \<Rightarrow> [] | Some items \<Rightarrow> items)"

text \<open>
  The test and the result of one round of the validation loop, as functions of the entry:
  an entry passes when it is a dictionary whose \<^verbatim>\<open>id\<close>, \<^verbatim>\<open>name\<close> and \<^verbatim>\<open>keywords\<close> are true as
  \<^verbatim>\<open>not\<close> tests them (any value that is not empty, 0, false or null, of whatever type); it
  is then kept with its \<^verbatim>\<open>description\<close> (default empty) and \<^verbatim>\<open>priority\<close> (default 999).
\<close>

fun is_dict :: "yaml \<Rightarrow> bool" where
  "is_dict (YDict d) = True"
| "is_dict _ = False"

fun complete_entry :: "yaml \<Rightarrow> bool" where
  "complete_entry (YDict d) =
     (truthy (dict_get d ''id'' (YStr [])) \<and> truthy (dict_get d ''name'' (YStr []))
      \<and> truthy (dict_get d ''keywords'' (YList [])))"
| "complete_entry _ = False"

fun kept_entry :: "yaml \<Rightarrow> loaded_topic" where
  "kept_entry (YDict d) =
     \<lparr>lt_id = dict_get d ''id'' (YStr []), lt_name = dict_get d ''name'' (YStr []),
      lt_keywords = dict_get d ''keywords'' (YList []),
      lt_description = (case map_of d (YStr (asc ''description'')) of None \<Rightarrow> YStr [] | Some v \<Rightarrow> v),
      lt_priority = (case map_of d (YStr (asc ''priority'')) of None \<Rightarrow> YInt 999 | Some v \<Rightarrow> v)\<rparr>"
| "kept_entry _ = \<lparr>lt_id = YNull, lt_name = YNull, lt_keywords = YNull, lt_description = YNull,
                   lt_priority = YNull\<rparr>"

text \<open>A matcher and inputs to run the classifier on: plain containment of the keyword.\<close>

definition substring_matches :: "ustr \<Rightarrow> ustr \<Rightarrow> bool" where
  "substring_matches ttl keyword = contains keyword ttl"

definition mk_topic :: "string \<Rightarrow> string list \<Rightarrow> topic" where
  "mk_topic i ks =
     \<lparr>tp_id = asc i, tp_name = asc i, tp_keywords = map asc ks, tp_description = [],
      tp_priority = 999\<rparr>"

definition no_title_data :: title_data where
  "no_title_data = \<lparr>td_url = None, td_mobileUrl = None, td_ranks = None, td_count = None,
                     td_first_time = None, td_last_time = None\<rparr>"

definition no_item_data :: item_data where
  "no_item_data = \<lparr>id_url = None, id_published_at = None, id_summary = None, id_author = None\<rparr>"

section \<open>Writing archive records (storage.py)\<close>

text \<open>
  The literals of the record format. The human-editable regions are delimited by
  \<open>NOTES_HEADER\<close> (\<^verbatim>\<open>## <pen> <U+4EBA U+5DE5 U+5907 U+6CE8>\<close>) and \<open>IMPORTANCE_HEADER\<close>
  (\<^verbatim>\<open>## <star> <U+91CD U+8981 U+5EA6 U+6807 U+8BB0>\<close>); a fresh record holds the HTML comment
  \<open>NOTES_PLACEHOLDER\<close> in the first region and \<open>IMPORTANCE_COMMENT\<close> followed by the line
  of check boxes \<open>IMPORTANCE_BOXES\<close> in the second.
\<close>

definition NOTES_HEADER :: ustr where
  "NOTES_HEADER = asc ''## '' @ [128394, 65039] @ asc '' '' @ [20154, 24037, 22791, 27880]"

definition IMPORTANCE_HEADER :: ustr where
  "IMPORTANCE_HEADER = asc ''## '' @ [11088] @ asc '' '' @ [37325, 35201, 24230, 26631, 35760]"

definition NOTES_PLACEHOLDER :: ustr where
  "NOTES_PLACEHOLDER = asc ''<!-- '' @ [22312, 27492, 28155, 21152, 20320, 30340, 20998, 26512, 21644, 24605, 32771] @ asc '' -->''"

definition IMPORTANCE_COMMENT :: ustr where
  "IMPORTANCE_COMMENT = asc ''<!-- 1-5'' @ [26143, 65292, 25968, 23383, 36234, 22823, 36234, 37325, 35201] @ asc '' -->''"

definition IMPORTANCE_BOXES :: ustr where
  "IMPORTANCE_BOXES = [37325, 35201, 24230] @ asc '': '' @ [9744] @ asc '' 1'' @ [26143] @ asc '' '' @ [9744] @ asc '' 2''
     @ [26143] @ asc '' '' @ [9744] @ asc '' 3'' @ [26143] @ asc '' '' @ [9744] @ asc '' 4'' @ [26143] @ asc '' '' @ [9744] @ asc '' 5'' @ [26143]"

definition STATS_HEADER :: ustr where
  "STATS_HEADER = asc ''## '' @ [128202] @ asc '' '' @ [32479, 35745, 25688, 35201]"

definition CONTENT_HEADER :: ustr where
  "CONTENT_HEADER = asc ''## '' @ [128240] @ asc '' '' @ [20869, 23481, 21015, 34920]"

definition HOTLIST_HEADER :: ustr where
  "HOTLIST_HEADER = asc ''### '' @ [28909, 27036, 26032, 38395]"

definition RSS_HEADER :: ustr where
  "RSS_HEADER = asc ''### RSS'' @ [35746, 38405]"

definition TOTAL_LABEL :: ustr where
  "TOTAL_LABEL = asc ''- **'' @ [24635, 26465, 30446] @ asc ''**: ''"

definition HOTLIST_LABEL :: ustr where
  "HOTLIST_LABEL = asc ''- **'' @ [28909, 27036, 26469, 28304] @ asc ''**: ''"

definition RSS_LABEL :: ustr where
  "RSS_LABEL = asc ''- **RSS'' @ [26469, 28304] @ asc ''**: ''"

definition TIAO :: ustr where
  \<comment> \<open>the counter word U+6761 that follows a number of entries\<close>
  "TIAO = [26465]"

definition UNKNOWN_SOURCE :: ustr where
  "UNKNOWN_SOURCE = [26410, 30693]"

definition SOURCE_LABEL :: ustr where
  "SOURCE_LABEL = asc ''   - '' @ [26469, 28304] @ asc '': ''"

definition RANK_LABEL :: ustr where
  "RANK_LABEL = asc ''   - '' @ [25490, 21517] @ asc '': ''"

definition TIME_LABEL :: ustr where
  "TIME_LABEL = asc ''   - '' @ [26102, 38388] @ asc '': ''"

definition PUBLISHED_LABEL :: ustr where
  "PUBLISHED_LABEL = asc ''   - '' @ [21457, 24067, 26102, 38388] @ asc '': ''"

definition AUTHOR_LABEL :: ustr where
  "AUTHOR_LABEL = asc ''   - '' @ [20316, 32773] @ asc '': ''"

definition SUMMARY_LABEL :: ustr where
  "SUMMARY_LABEL = asc ''   - '' @ [25688, 35201] @ asc '': ''"

text \<open>
  The first line of an entry: \<^verbatim>\<open>i. **[title](url)**\<close> when the url is not empty,
  \<^verbatim>\<open>i. **title**\<close> otherwise.
\<close>

definition title_line :: "nat \<Rightarrow> ustr \<Rightarrow> ustr \<Rightarrow> ustr" where
  "title_line i ttl u =
     (if u \<noteq> [] then str_int (int i) @ asc ''. **['' @ ttl @ asc '']('' @ u @ asc '')**''
      else str_int (int i) @ asc ''. **'' @ ttl @ asc ''**'')"

text \<open>The lines of one hot-list entry and of one RSS entry, each ending with an empty line.\<close>

definition hotlist_lines :: "nat \<Rightarrow> item \<Rightarrow> ustr list" where
  "hotlist_lines i it =
     (let source = or_default (it_source_id it) UNKNOWN_SOURCE;
          u = or_default (it_url it) [];
          cnt = or_default (it_count it) 1;
          rks = or_default (it_ranks it) [];
          first_time = or_default (it_first_time it) [];
          last_time = or_default (it_last_time it) []
      in [title_line i (it_title it) u,
          SOURCE_LABEL @ source @ (asc '' | '' @ [20986, 29616] @ asc '' '') @ str_int cnt @ (asc '' '' @ [27425])]
         @ (if rks \<noteq> [] then
              [RANK_LABEL @ py_join (asc '', '') (map (\<lambda>r. [35] @ str_int r) (take 5 rks))
                 @ (if 5 < length rks then asc ''...'' else [])]
            else [])
         @ (if first_time \<noteq> [] then
              [TIME_LABEL @ (if first_time = last_time then first_time
                             else first_time @ asc '' ~ '' @ last_time)]
            else [])
         @ [[]])"

definition rss_lines :: "nat \<Rightarrow> item \<Rightarrow> ustr list" where
  "rss_lines i it =
     (let source = or_default (it_source_id it) UNKNOWN_SOURCE;
          u = or_default (it_url it) [];
          published = or_default (it_published_at it) [];
          summ = or_default (it_summary it) [];
          auth = or_default (it_author it) []
      in [title_line i (it_title it) u, SOURCE_LABEL @ source]
         @ (if published \<noteq> [] then [PUBLISHED_LABEL @ published] else [])
         @ (if auth \<noteq> [] then [AUTHOR_LABEL @ auth] else [])
         @ (if summ \<noteq> [] then
              [SUMMARY_LABEL @ (if 200 < length summ then take 200 summ @ asc ''...'' else summ)]
            else [])
         @ [[]])"

text \<open>\<^verbatim>\<open>enumerate(xs, 1)\<close>.\<close>

definition enumerate1 :: "'a list \<Rightarrow> (nat \<times> 'a) list" where
  "enumerate1 xs = zip [1 ..< Suc (length xs)] xs"

text \<open>
  The lines of \<^verbatim>\<open>_generate_markdown\<close>, in two parts: the derived part (title, statistics,
  content list) and the six lines of the human-editable part. The document is all lines
  joined by a line feed.
\<close>

definition derived_lines :: "ustr \<Rightarrow> ustr \<Rightarrow> item list \<Rightarrow> ustr list" where
  "derived_lines date topic_name items =
     (let hotlist_items = filter (\<lambda>it. it_source_type it = Some HOTLIST) items;
          rss_items_list = filter (\<lambda>it. it_source_type it = Some RSS) items;
          hotlist_count = length hotlist_items;
          rss_count = length rss_items_list
      in [asc ''# '' @ topic_name @ asc '' - '' @ date @ [10],
          STATS_HEADER @ [10],
          TOTAL_LABEL @ str_int (int (length items)) @ [32] @ TIAO,
          HOTLIST_LABEL @ str_int (int hotlist_count) @ [32] @ TIAO,
          RSS_LABEL @ str_int (int rss_count) @ [32] @ TIAO @ [10],
          CONTENT_HEADER @ [10]]
         @ (if hotlist_items \<noteq> [] then
              [HOTLIST_HEADER @ [10]]
              @ concat (map (\<lambda>(i, it). hotlist_lines i it) (enumerate1 hotlist_items))
            else [])
         @ (if rss_items_list \<noteq> [] then
              [RSS_HEADER @ [10]]
              @ concat (map (\<lambda>(i, it). rss_lines i it) (enumerate1 rss_items_list))
            else []))"

definition human_lines :: "ustr list" where
  "human_lines =
     [[10] @ asc ''---'' @ [10],
      NOTES_HEADER @ [10],
      NOTES_PLACEHOLDER @ [10, 10],
      IMPORTANCE_HEADER @ [10],
      IMPORTANCE_COMMENT @ [10],
      IMPORTANCE_BOXES @ [10]]"

definition generate_markdown :: "ustr \<Rightarrow> ustr \<Rightarrow> item list \<Rightarrow> ustr" where
  "generate_markdown date topic_name items =
     py_join [10] (derived_lines date topic_name items @ human_lines)"

text \<open>
  What \<^verbatim>\<open>_append_to_existing\<close> reads from the old file: the text between the first
  \<open>NOTES_HEADER\<close> and the next \<open>IMPORTANCE_HEADER\<close> (or \<open>NOTES_HEADER\<close>, or the end), stripped;
  the text after that \<open>IMPORTANCE_HEADER\<close> up to the next header of either kind, stripped;
  and the topic name of the first line.
\<close>

definition extract_human :: "ustr \<Rightarrow> ustr \<times> ustr" where
  "extract_human existing_content =
     (if contains NOTES_HEADER existing_content then
        (case py_split NOTES_HEADER existing_content of
           _ # part1 # _ \<Rightarrow>
             (case py_split IMPORTANCE_HEADER part1 of
                [] \<Rightarrow> ([], [])
              | [n] \<Rightarrow> (strip n, [])
              | n # i # _ \<Rightarrow> (strip n, strip i))
         | _ \<Rightarrow> ([], []))
      else ([], []))"

definition extract_topic_name :: "ustr \<Rightarrow> ustr \<Rightarrow> ustr" where
  "extract_topic_name dir_name existing_content =
     (if contains (asc ''# '') existing_content then
        (let first_line = hd (py_split [10] existing_content)
         in if contains (asc '' - '') first_line
            then strip (replace_all [35] [] (hd (py_split (asc '' - '') first_line)))
            else dir_name)
      else dir_name)"

text \<open>
  \<^verbatim>\<open>_append_to_existing\<close>, as the new content of the file. The model covers the stores in
  which \<^verbatim>\<open>file_path.stem\<close> is the date and \<^verbatim>\<open>file_path.parent.name\<close> the topic id of the key
  of the file (both non-empty single path components; for an empty date the stem would be
  \<^verbatim>\<open>.md\<close>), and in which the text read is the text stored (no carriage return in it: Python
  reads a file with universal newlines, a CR or CRLF as a line feed).
\<close>

definition append_to_existing :: "ustr \<Rightarrow> ustr \<Rightarrow> ustr \<Rightarrow> item list \<Rightarrow> ustr" where
  "append_to_existing existing_content topic_id date new_items =
     (case extract_human existing_content of
        (human_notes, importance) \<Rightarrow>
          (let topic_name = extract_topic_name topic_id existing_content;
               content = generate_markdown date topic_name new_items;
               content = (if human_notes \<noteq> []
                          then replace_all NOTES_PLACEHOLDER human_notes content else content);
               content = (if importance \<noteq> []
                          then replace_all IMPORTANCE_BOXES importance content else content)
           in content))"

text \<open>
  \<^verbatim>\<open>save_topic_classification\<close>: the store after the call. The write is taken to succeed:
  the content is text that can be encoded as UTF-8 (a lone surrogate cannot, and the call
  would raise after the file has been emptied).
\<close>

definition save_topic_classification ::
  "archive \<Rightarrow> ustr \<Rightarrow> ustr \<Rightarrow> ustr \<Rightarrow> item list \<Rightarrow> bool \<Rightarrow> archive" where
  "save_topic_classification fs date topic_id topic_name items append_mode =
     (case fs (topic_id, date) of
        Some existing_content \<Rightarrow>
          if append_mode
          then fs((topic_id, date) \<mapsto> append_to_existing existing_content topic_id date items)
          else fs((topic_id, date) \<mapsto> generate_markdown date topic_name items)
      | None \<Rightarrow> fs((topic_id, date) \<mapsto> generate_markdown date topic_name items))"

text \<open>
  The fixed text of a record around the two human-editable regions: \<open>BEFORE_NOTES\<close> follows
  the line feed that ends the derived part, \<open>BETWEEN_REGIONS\<close> lies between the notes and
  the importance mark.
\<close>

definition BEFORE_NOTES :: ustr where
  "BEFORE_NOTES = [10] @ asc ''---'' @ [10, 10] @ NOTES_HEADER @ [10]"

definition BETWEEN_REGIONS :: ustr where
  "BETWEEN_REGIONS = [10, 10] @ IMPORTANCE_HEADER @ [10, 10] @ IMPORTANCE_COMMENT @ [10]"

text \<open>Concrete inputs: the item of the specification's end-to-end example.\<close>

definition example_item :: item where
  "example_item =
     \<lparr>it_title = asc ''OpenAI'' @ [21457, 24067, 26032, 27169, 22411],
      it_source_type = Some HOTLIST, it_source_id = Some (asc ''src1''),
      it_url = Some (asc ''http://x/1''), it_mobile_url = Some [], it_ranks = Some [1],
      it_count = Some 2, it_first_time = Some (asc ''09:00''), it_last_time = Some (asc ''10:00''),
      it_published_at = None, it_summary = None, it_author = None\<rparr>"

definition example_date :: ustr where
  "example_date = asc ''2026-01-20''"

definition example_topic_id :: ustr where
  "example_topic_id = asc ''ai-tech''"

definition example_topic_name :: ustr where
  "example_topic_name = asc ''AI'' @ [31185, 25216]"

section \<open>The history digest (summarizer.py)\<close>

text \<open>
  \<^verbatim>\<open>_extract_stats\<close>. \<^verbatim>\<open>int(...)\<close> is the library's parser of integer literals, the
  parameter \<open>py_int\<close> (\<open>None\<close>: ValueError). A line without a colon raises IndexError; the
  bare \<^verbatim>\<open>except\<close> turns both errors into "leave the value as it is".
\<close>

record day_stats =
  st_total_items :: int
  st_hotlist :: int
  st_rss :: int

definition parse_count :: "(ustr \<Rightarrow> int option) \<Rightarrow> ustr \<Rightarrow> int option" where
  "parse_count py_int line =
     (case py_split [58] line of
        _ # x # _ \<Rightarrow> py_int (replace_all (asc ''**'') [] (strip (hd (py_split TIAO x))))
      | _ \<Rightarrow> None)"

fun extract_stats_loop :: "(ustr \<Rightarrow> int option) \<Rightarrow> ustr list \<Rightarrow> day_stats \<Rightarrow> day_stats" where
  "extract_stats_loop py_int [] stats = stats"
| "extract_stats_loop py_int (line # rest) stats =
     extract_stats_loop py_int rest
       (if contains ([24635, 26465, 30446]) line then
          (case parse_count py_int line of
             Some n \<Rightarrow> stats\<lparr>st_total_items := n\<rparr> | None \<Rightarrow> stats)
        else if contains ([28909, 27036, 26469, 28304]) line then
          (case parse_count py_int line of
             Some n \<Rightarrow> stats\<lparr>st_hotlist := n\<rparr> | None \<Rightarrow> stats)
        else if contains (asc ''RSS'' @ [26469, 28304]) line then
          (case parse_count py_int line of
             Some n \<Rightarrow> stats\<lparr>st_rss := n\<rparr> | None \<Rightarrow> stats)
        else stats)"

definition extract_stats :: "(ustr \<Rightarrow> int option) \<Rightarrow> ustr \<Rightarrow> day_stats" where
  "extract_stats py_int content =
     extract_stats_loop py_int (py_split [10] content)
       \<lparr>st_total_items = 0, st_hotlist = 0, st_rss = 0\<rparr>"

definition extract_human_notes :: "ustr \<Rightarrow> ustr" where
  "extract_human_notes content =
     (if \<not> contains NOTES_HEADER content then []
      else (case py_split NOTES_HEADER content of
              _ # part1 # _ \<Rightarrow>
                (let notes_section = hd (py_split IMPORTANCE_HEADER part1);
                     notes = strip (replace_all (asc ''-->'') []
                                      (replace_all (asc ''<!--'') [] notes_section))
                 in if contains ([22312, 27492, 28155, 21152, 20320, 30340, 20998, 26512, 21644, 24605, 32771]) notes
                    then [] else notes)
            | _ \<Rightarrow> []))"

text \<open>
  \<^verbatim>\<open>_summarize_topic_history\<close>: the days of the window with a non-empty file and a positive
  total; \<open>None\<close> when there is none; otherwise the display name (from the title line of the
  first such day, else the topic id) and one or two lines per day.
\<close>

fun history_loop ::
  "(ustr \<Rightarrow> int option) \<Rightarrow> archive \<Rightarrow> ustr \<Rightarrow> ustr list \<Rightarrow> (ustr \<times> day_stats \<times> ustr) list
     \<Rightarrow> (ustr \<times> day_stats \<times> ustr) list" where
  "history_loop py_int fs topic_id [] history_items = history_items"
| "history_loop py_int fs topic_id (date # rest) history_items =
     history_loop py_int fs topic_id rest
       (case read_topic_file fs topic_id date of
          None \<Rightarrow> history_items
        | Some content \<Rightarrow>
            if content = [] then history_items
            else (let stats = extract_stats py_int content;
                      human_notes = extract_human_notes content
                  in if 0 < st_total_items stats
                     then history_items @ [(date, stats, human_notes)]
                     else history_items))"

definition history_lines :: "ustr \<times> day_stats \<times> ustr \<Rightarrow> ustr list" where
  "history_lines entry =
     (case entry of
        (date, stats, human_notes) \<Rightarrow>
          [asc ''**'' @ date @ asc ''**: '' @ str_int (st_total_items stats)
             @ ([26465] @ asc '' ('' @ [28909, 27036]) @ str_int (st_hotlist stats)
             @ asc '', RSS'' @ str_int (st_rss stats) @ asc '')'']
          @ (if human_notes \<noteq> [] then
               [(asc ''  > '' @ [22791, 27880] @ asc '': '') @ take 100 human_notes
                  @ (if 100 < length human_notes then asc ''...'' else [])]
             else []))"

definition summarize_topic_history ::
  "(ustr \<Rightarrow> int option) \<Rightarrow> archive \<Rightarrow> ustr \<Rightarrow> ustr list \<Rightarrow> (ustr \<times> ustr) option" where
  "summarize_topic_history py_int fs topic_id dates =
     (case history_loop py_int fs topic_id dates [] of
        [] \<Rightarrow> None
      | first # others \<Rightarrow>
          (let topic_name =
                 (case read_topic_file fs topic_id (fst first) of
                    None \<Rightarrow> topic_id
                  | Some first_content \<Rightarrow>
                      if first_content \<noteq> [] \<and> prefix [35] first_content then
                        (let first_line = hd (py_split [10] first_content)
                         in if contains (asc '' - '') first_line
                            then strip (replace_all [35] [] (hd (py_split (asc '' - '') first_line)))
                            else topic_id)
                      else topic_id)
           in Some (topic_name,
                    py_join [10] (concat (map history_lines (first # others))))))"

text \<open>
  The truncation notice, the header of the digest, and \<^verbatim>\<open>int(max_tokens * 1.5)\<close>: the
  product is rounded towards zero (exact for the integers a float represents exactly).
\<close>

definition TRUNCATION_NOTICE :: ustr where
  "TRUNCATION_NOTICE = [10] @ asc ''> '' @ [9888, 65039] @ asc '' '' @ [21382, 21490, 25968, 25454, 36807, 22810, 65292, 24050, 25130, 26029] @ asc ''...'' @ [10]"

definition digest_header :: "ustr list \<Rightarrow> ustr" where
  "digest_header dates =
     (asc ''## '' @ [128202] @ asc '' '' @ [26368, 36817]) @ str_int (int (length dates)) @ ([22825, 21516, 20027, 39064, 21382, 21490, 10, 10])
     @ (asc ''> '' @ [26102, 38388, 33539, 22260] @ asc '': '') @ last dates @ (asc '' '' @ [33267] @ asc '' '') @ hd dates @ [10, 10]"

definition max_chars_of :: "int \<Rightarrow> int" where
  "max_chars_of max_tokens =
     (if 0 \<le> max_tokens then (3 * max_tokens) div 2 else - ((3 * (- max_tokens)) div 2))"

text \<open>
  The loop over \<^verbatim>\<open>topics_dir.iterdir()\<close>: the entries of the base directory in the order
  the file system lists them, each with its name and whether it is a directory. The loop
  stops (\<^verbatim>\<open>break\<close>) after it has appended the notice.
\<close>

fun summaries_loop ::
  "(ustr \<Rightarrow> int option) \<Rightarrow> archive \<Rightarrow> ustr list \<Rightarrow> int \<Rightarrow> (ustr \<times> bool) list \<Rightarrow> ustr list \<Rightarrow> int
     \<Rightarrow> ustr list" where
  "summaries_loop py_int fs dates max_chars [] summaries total_chars = summaries"
| "summaries_loop py_int fs dates max_chars ((name, is_dir) # rest) summaries total_chars =
     (if \<not> is_dir then summaries_loop py_int fs dates max_chars rest summaries total_chars
      else (case summarize_topic_history py_int fs name dates of
              None \<Rightarrow> summaries_loop py_int fs dates max_chars rest summaries total_chars
            | Some (topic_name, content) \<Rightarrow>
                (let summary_text = asc ''### '' @ topic_name @ [10, 10] @ content @ [10];
                     summary_chars = int (length summary_text)
                 in if total_chars + summary_chars > max_chars
                    then summaries @ [TRUNCATION_NOTICE]
                    else summaries_loop py_int fs dates max_chars rest
                           (summaries @ [summary_text]) (total_chars + summary_chars))))"

text \<open>
  The store as the summarizer sees it: the files, and the listing of the base directory
  (\<open>None\<close> when the directory does not exist).
\<close>

record topic_store =
  store_files :: archive
  store_listing :: "(ustr \<times> bool) list option"

definition build_digest ::
  "(ustr \<Rightarrow> int option) \<Rightarrow> topic_store \<Rightarrow> ustr list \<Rightarrow> int \<Rightarrow> ustr" where
  "build_digest py_int store dates max_tokens =
     (if dates = [] then []
      else (case store_listing store of
              None \<Rightarrow> []
            | Some listing \<Rightarrow>
                (let summaries = summaries_loop py_int (store_files store) dates
                                   (max_chars_of max_tokens) listing [] 0
                 in if summaries = [] then []
                    else digest_header dates @ py_join [10] summaries)))"

text \<open>
  \<^verbatim>\<open>get_recent_summaries\<close>. Without a \<open>current_date\<close> the configured clock gives today's
  date, the parameter \<open>today\<close>. An error of \<^verbatim>\<open>_get_date_range\<close> reaches the caller.
\<close>

definition get_recent_summaries ::
  "(ustr \<Rightarrow> int option) \<Rightarrow> (int \<Rightarrow> ustr) \<Rightarrow> (ustr \<Rightarrow> int option) \<Rightarrow> ustr \<Rightarrow> topic_store
     \<Rightarrow> int \<Rightarrow> ustr option \<Rightarrow> int \<Rightarrow> py_error + ustr" where
  "get_recent_summaries strptime strftime py_int today store days current_date max_tokens =
     (case get_date_range strptime strftime (or_default current_date today) days True of
        Inl e \<Rightarrow> Inl e
      | Inr dates \<Rightarrow> Inr (build_digest py_int store dates max_tokens))"

text \<open>
  An instance of \<open>py_int\<close> for plain ASCII decimal literals with an optional sign, which is
  what the generated records contain.
\<close>

definition ascii_int :: "ustr \<Rightarrow> int option" where
  "ascii_int s =
     (case strip s of
        [] \<Rightarrow> None
      | c # cs \<Rightarrow>
          if c = 45 then (if cs = [] then None else map_option uminus (digits_val 0 cs))
          else if c = 43 then (if cs = [] then None else digits_val 0 cs)
          else digits_val 0 (c # cs))"

text \<open>A store with one topic directory and one record, of the day before the example date.\<close>

definition example_store :: topic_store where
  "example_store =
     \<lparr>store_files = [(example_topic_id, asc ''2026-01-19'') \<mapsto>
                       generate_markdown (asc ''2026-01-19'') example_topic_name [example_item]],
      store_listing = Some [(example_topic_id, True)]\<rparr>"

text \<open>
  The digest of \<open>example_store\<close> for the seven days before 2026-01-20: the two header lines
  and the subsection of the one topic.
\<close>

definition example_digest :: ustr where
  "example_digest =
     [35, 35, 32, 128202, 32, 26368, 36817] @ asc ''7''
     @ [22825, 21516, 20027, 39064, 21382, 21490, 10, 10]
     @ asc ''> '' @ [26102, 38388, 33539, 22260] @ asc '': 2026-01-13 '' @ [33267]
     @ asc '' 2026-01-19'' @ [10, 10]
     @ asc ''### AI'' @ [31185, 25216, 10, 10]
     @ asc ''**2026-01-19**: 1'' @ [26465] @ asc '' ('' @ [28909, 27036] @ asc ''1, RSS0)'' @ [10]"

text \<open>
  The derived part of a record as one string, and what the two \<^verbatim>\<open>replace\<close> calls of
  \<^verbatim>\<open>_append_to_existing\<close> do to a string: an empty region leaves the fresh text in place.
\<close>

definition derived_part :: "ustr \<Rightarrow> ustr \<Rightarrow> item list \<Rightarrow> ustr" where
  "derived_part date topic_name items = py_join [10] (derived_lines date topic_name items)"

definition splice_regions :: "ustr \<Rightarrow> ustr \<Rightarrow> ustr \<Rightarrow> ustr" where
  "splice_regions human_notes importance content =
     (let content = (if human_notes \<noteq> []
                     then replace_all NOTES_PLACEHOLDER human_notes content else content)
      in if importance \<noteq> [] then replace_all IMPORTANCE_BOXES importance content else content)"

text \<open>
  A record of the example topic after a human edit: the notes and the importance mark
  stand where a fresh record has its placeholder and its line of check boxes. In
  \<open>edited_notes\<close> the human quotes the line of check boxes.
\<close>

definition human_record :: "ustr \<Rightarrow> ustr \<Rightarrow> ustr" where
  "human_record notes mark =
     derived_part example_date example_topic_name [example_item]
     @ [10] @ BEFORE_NOTES @ [10] @ notes @ [10] @ BETWEEN_REGIONS @ [10] @ mark @ [10]"

definition edited_notes :: ustr where
  "edited_notes = asc ''keep '' @ IMPORTANCE_BOXES"

section \<open>The date window\<close>

lemma date_loop_in_range:
  assumes "\<forall>i \<in> set js. 0 \<le> i \<and> i \<le> 999999999 \<and> MINORD \<le> e - i \<and> e - i \<le> MAXORD"
  shows "date_loop strftime e js acc = Inr (acc @ map (\<lambda>i. strftime (e - i)) js)"
  using assms
proof (induction js arbitrary: acc)
  case Nil
  then show ?case by simp
next
  case (Cons j js)
  then have "sub_days e j = Inr (e - j)"
    by (simp add: sub_days_def)
  with Cons show ?case by simp
qed

text \<open>
  C7 (as amended). For a valid \<open>current_date\<close> (ordinal \<open>e\<close>) and \<open>days \<ge> 1\<close> with the
  whole window inside the range of \<^verbatim>\<open>datetime\<close> (\<open>days < e\<close>), the window of
  \<^verbatim>\<open>_get_date_range(current_date, days, exclude_current=True)\<close> is the list of the formatted
  dates \<open>e - 1, e - 2, ..., e - days\<close>: exactly \<open>days\<close> dates, each strictly before
  \<open>current_date\<close>, in descending order, and \<open>current_date\<close> itself is not among the ordinals.
\<close>

theorem get_date_range_window:
  assumes "strptime current_date = Some e"
    and "1 \<le> days" and "days < e" and "e \<le> MAXORD"
  shows "get_date_range strptime strftime current_date days True =
           Inr (map (\<lambda>i. strftime (e - i)) [1 .. days])
         \<and> length [1 .. days] = nat days
         \<and> (\<forall>i \<in> set [1 .. days]. e - i < e)
         \<and> sorted_wrt (\<lambda>a b. a > b) (map (\<lambda>i. e - i) [1 .. days])"
proof -
  have rng: "\<forall>i \<in> set [1 .. days]. 0 \<le> i \<and> i \<le> 999999999 \<and> MINORD \<le> e - i \<and> e - i \<le> MAXORD"
    using assms by (auto simp: MINORD_def MAXORD_def)
  have "get_date_range strptime strftime current_date days True =
          date_loop strftime e [1 .. days] []"
    using assms(1) by (simp add: get_date_range_def)
  also have "\<dots> = Inr (map (\<lambda>i. strftime (e - i)) [1 .. days])"
    using date_loop_in_range [OF rng, of strftime "[]"] by simp
  finally have a: "get_date_range strptime strftime current_date days True =
           Inr (map (\<lambda>i. strftime (e - i)) [1 .. days])" .
  have b: "length [1 .. days] = nat days"
    by simp
  have c: "\<forall>i \<in> set [1 .. days]. e - i < e"
    by auto
  have "sorted_wrt (\<lambda>a b. a < b) [1 .. days]"
    using sorted_wrt_upto by blast
  then have d: "sorted_wrt (\<lambda>a b. a > b) (map (\<lambda>i. e - i) [1 .. days])"
    by (simp add: sorted_wrt_map)
  from a b c d show ?thesis by blast
qed

theorem get_date_range_window_witness:
  "strptime_iso (asc ''2026-01-03'') = Some 739619 \<and> (1::int) \<le> 3 \<and> (3::int) < 739619
   \<and> 739619 \<le> MAXORD
   \<and> get_date_range strptime_iso strftime_iso (asc ''2026-01-03'') 3 True =
       Inr (map asc [''2026-01-02'', ''2026-01-01'', ''2025-12-31''])"
proof -
  have p: "strptime_iso (asc ''2026-01-03'') = Some 739619"
    by code_simp
  have m: "(739619::int) \<le> MAXORD"
    by (simp add: MAXORD_def)
  have r: "map (\<lambda>i. strftime_iso (739619 - i)) [1 .. 3] =
             map asc [''2026-01-02'', ''2026-01-01'', ''2025-12-31'']"
    by code_simp
  have "get_date_range strptime_iso strftime_iso (asc ''2026-01-03'') 3 True =
          Inr (map (\<lambda>i. strftime_iso (739619 - i)) [1 .. 3])"
    using get_date_range_window
            [of strptime_iso "asc ''2026-01-03''" 739619 3 strftime_iso] p m
    by simp
  with p m r show ?thesis by simp
qed

text \<open>
  As the specification states it ("every \<open>current_date\<close>"), the property fails at the first
  day of the calendar:
  for \<^verbatim>\<open>0001-01-01\<close> and \<open>days = 1\<close> the subtraction leaves the range of \<^verbatim>\<open>datetime\<close>
  and \<^verbatim>\<open>_get_date_range\<close> raises instead of returning a window.
\<close>

theorem get_date_range_year1_counterexample:
  "get_date_range strptime_iso strftime_iso (asc ''0001-01-01'') 1 True = Inl OverflowError"
  by code_simp

section \<open>The legacy timeline: deduplication by URL\<close>

lemmas timeline_literals =
  LINK_MARK_def TITLE_MARK_def SOURCE_MARK_def SUMMARY_MARK_def NO_LINK_def NO_SUMMARY_def
  JUDGEMENT_BLOCK_def asc_def

lemmas timeline_render =
  render_new_content_def group_by_date_def sorted_dates_desc_def render_date_section_def
  render_trend_def mk_trend_def

lemma new_trends_loop_filter:
  "new_trends_loop E ts acc =
     acc @ filter (\<lambda>t. case trend_url t of None \<Rightarrow> True | Some u \<Rightarrow> u \<notin> E) ts"
  by (induction ts arbitrary: acc) (auto split: option.splits)

lemma example_timeline_urls:
  "findall_urls example_timeline = [asc ''http://x/u1'', asc ''https://x/u2'']"
  by (simp add: example_timeline_def timeline_render timeline_literals url_match_def is_space_def)

lemma example_timeline_generated:
  "generate_timeline example_topics Map.empty (asc ''ai-tech'')
     [mk_trend ''first'' (Some ''http://x/u1'') ''2026-01-19'',
      mk_trend ''second'' (Some ''https://x/u2'') ''2026-01-19'']
   = Inr [asc ''ai-tech'' \<mapsto> example_timeline]"
  by (simp add: generate_timeline_def example_topics_def load_existing_urls_def
        example_timeline_def mk_trend_def asc_def)

text \<open>
  C9 (as amended). \<^verbatim>\<open>load_existing_urls\<close> reads from the timeline file the URLs that follow
  a link marker, begin with \<^verbatim>\<open>http://\<close> or \<^verbatim>\<open>https://\<close> and run up to the next white space.
  When every candidate has a \<open>url\<close> that is among the URLs so read, \<^verbatim>\<open>generate_timeline\<close>
  writes nothing: it returns with the store as it was (or raises KeyError for an unknown
  topic, before any file is touched).
\<close>

theorem generate_timeline_no_write:
  assumes "\<forall>t \<in> set trends. \<exists>u. trend_url t = Some u \<and> u \<in> load_existing_urls (fs topic_id)"
  shows "generate_timeline topics fs topic_id trends =
           (case topics topic_id of
              None \<Rightarrow> Inl KeyError
            | Some cfg \<Rightarrow> (case rt_name cfg of None \<Rightarrow> Inl KeyError | Some topic_name \<Rightarrow> Inr fs))"
proof -
  have "filter (\<lambda>t. case trend_url t of None \<Rightarrow> True
                    | Some u \<Rightarrow> u \<notin> load_existing_urls (fs topic_id)) trends = []"
    using assms by (auto simp: filter_empty_conv)
  then have "new_trends_loop (load_existing_urls (fs topic_id)) trends [] = []"
    by (simp add: new_trends_loop_filter)
  then show ?thesis
    by (simp add: generate_timeline_def split: option.splits)
qed

theorem generate_timeline_no_write_witness:
  "generate_timeline example_topics [asc ''ai-tech'' \<mapsto> example_timeline] (asc ''ai-tech'')
     [mk_trend ''a'' (Some ''http://x/u1'') ''2026-01-20'',
      mk_trend ''b'' (Some ''https://x/u2'') ''2026-01-21'']
   = Inr [asc ''ai-tech'' \<mapsto> example_timeline]"
proof -
  have "load_existing_urls ([asc ''ai-tech'' \<mapsto> example_timeline] (asc ''ai-tech''))
          = {asc ''http://x/u1'', asc ''https://x/u2''}"
    by (simp add: load_existing_urls_def example_timeline_urls)
  then have h: "\<forall>t \<in> set [mk_trend ''a'' (Some ''http://x/u1'') ''2026-01-20'',
                         mk_trend ''b'' (Some ''https://x/u2'') ''2026-01-21''].
               \<exists>u. trend_url t = Some u
                 \<and> u \<in> load_existing_urls ([asc ''ai-tech'' \<mapsto> example_timeline] (asc ''ai-tech''))"
    by (simp add: mk_trend_def)
  show ?thesis
    using generate_timeline_no_write
            [where fs = "[asc ''ai-tech'' \<mapsto> example_timeline]" and topic_id = "asc ''ai-tech''"
               and topics = example_topics
               and trends = "[mk_trend ''a'' (Some ''http://x/u1'') ''2026-01-20'',
                              mk_trend ''b'' (Some ''https://x/u2'') ''2026-01-21'']"] h
    by (simp add: example_topics_def)
qed

text \<open>
  As the specification states it, for every URL that the file records, the property
  fails. The first run writes the timeline of a trend whose URL has a blank inside; the
  file then holds the link line of that URL, but what is read back from it stops at the
  blank. The second run, on the same single candidate, does not find its URL among those
  read, and writes the file again with the entry twice.
\<close>

theorem generate_timeline_rewrites_counterexample:
  "generate_timeline example_topics Map.empty (asc ''ai-tech'') [blank_trend]
     = Inr [asc ''ai-tech'' \<mapsto> blank_timeline]
   \<and> trend_url blank_trend = Some (asc ''http://x/a b'')
   \<and> contains (LINK_MARK @ asc ''http://x/a b'' @ [10]) blank_timeline
   \<and> load_existing_urls (Some blank_timeline) = {asc ''http://x/a''}
   \<and> generate_timeline example_topics [asc ''ai-tech'' \<mapsto> blank_timeline] (asc ''ai-tech'')
         [blank_trend]
     = Inr [asc ''ai-tech'' \<mapsto> blank_timeline_twice]
   \<and> blank_timeline_twice \<noteq> blank_timeline"
proof -
  have first: "generate_timeline example_topics Map.empty (asc ''ai-tech'') [blank_trend]
                 = Inr [asc ''ai-tech'' \<mapsto> blank_timeline]"
    by (simp add: generate_timeline_def example_topics_def load_existing_urls_def
          blank_timeline_def blank_trend_def mk_trend_def asc_def)
  have url: "trend_url blank_trend = Some (asc ''http://x/a b'')"
    by (simp add: blank_trend_def mk_trend_def)
  have recorded: "contains (LINK_MARK @ asc ''http://x/a b'' @ [10]) blank_timeline"
    by (simp add: blank_timeline_def blank_trend_def timeline_render timeline_literals)
  have urls: "findall_urls blank_timeline = [asc ''http://x/a'']"
    by (simp add: blank_timeline_def blank_trend_def timeline_render timeline_literals
          url_match_def is_space_def)
  then have read: "load_existing_urls (Some blank_timeline) = {asc ''http://x/a''}"
    by (simp add: load_existing_urls_def)
  have spliced: "splice_timeline blank_timeline (render_new_content [blank_trend])
                   = blank_timeline_twice"
    by (simp add: splice_timeline_def blank_timeline_def blank_timeline_twice_def blank_trend_def
          timeline_render timeline_literals)
  have kept: "new_trends_loop {asc ''http://x/a''} [blank_trend] [] = [blank_trend]"
    by (simp add: blank_trend_def mk_trend_def asc_def)
  have second: "generate_timeline example_topics [asc ''ai-tech'' \<mapsto> blank_timeline]
                  (asc ''ai-tech'') [blank_trend]
                = Inr [asc ''ai-tech'' \<mapsto> blank_timeline_twice]"
    using read kept spliced
    by (simp add: generate_timeline_def example_topics_def)
  have differ: "blank_timeline_twice \<noteq> blank_timeline"
    by (simp add: blank_timeline_def blank_timeline_twice_def blank_trend_def timeline_render)
  from first url recorded read second differ show ?thesis
    by (intro conjI)
qed

section \<open>The keyword matcher of the router\<close>

lemma re_search_word_iff:
  "re_search_word isw k t \<longleftrightarrow> (\<exists>p \<le> length t. pattern_matches_at isw k t p)"
proof -
  have "set [0 ..< Suc (length t)] = {p. p \<le> length t}"
    by auto
  then show ?thesis
    by (simp add: re_search_word_def list_ex_iff Bex_def del: upt_Suc)
qed

lemma match_keywords_iff:
  "match_keywords isw lower text ks \<longleftrightarrow>
     (\<exists>k \<in> set ks. re_search_word isw (lower k) (lower text))"
  by (induction ks) auto

lemma boundary_before_word:
  assumes "k \<noteq> []" and "isw (hd k)"
  shows "boundary_at isw (pre @ k @ post) (length pre) \<longleftrightarrow> (pre = [] \<or> \<not> isw (last pre))"
proof -
  have a: "(pre @ k @ post) ! length pre = hd k"
    using assms(1) by (simp add: nth_append hd_conv_nth)
  have b: "pre \<noteq> [] \<Longrightarrow> (pre @ k @ post) ! (length pre - 1) = last pre"
    by (simp add: nth_append last_conv_nth)
  have c: "length pre < length (pre @ k @ post)"
    using assms(1) by simp
  show ?thesis
    unfolding boundary_at_def using a b c assms(2) by (cases "pre = []") auto
qed

lemma boundary_after_word:
  assumes "k \<noteq> []" and "isw (last k)"
  shows "boundary_at isw (pre @ k @ post) (length pre + length k) \<longleftrightarrow>
           (post = [] \<or> \<not> isw (hd post))"
proof -
  have "length pre + length k - 1 = length pre + (length k - 1)"
    using assms(1) by (cases k) simp_all
  then have "(pre @ k @ post) ! (length pre + length k - 1) = (k @ post) ! (length k - 1)"
    by (simp only: nth_append_length_plus)
  then have a: "(pre @ k @ post) ! (length pre + length k - 1) = last k"
    using assms(1) by (simp add: nth_append last_conv_nth)
  have b: "post \<noteq> [] \<Longrightarrow> (pre @ k @ post) ! (length pre + length k) = hd post"
    by (simp add: nth_append hd_conv_nth)
  have c: "0 < length pre + length k"
    using assms(1) by simp
  show ?thesis
    unfolding boundary_at_def using a b c assms(2) by (cases "post = []") auto
qed

lemma pattern_matches_at_decomp:
  assumes "k \<noteq> []" and "isw (hd k)" and "isw (last k)"
  shows "pattern_matches_at isw k t p \<longleftrightarrow>
           (\<exists>pre post. t = pre @ k @ post \<and> length pre = p
              \<and> (pre = [] \<or> \<not> isw (last pre)) \<and> (post = [] \<or> \<not> isw (hd post)))"
proof
  assume m: "pattern_matches_at isw k t p"
  define pre where "pre = take p t"
  define post where "post = drop (p + length k) t"
  from m have len: "p + length k \<le> length t" and occ: "take (length k) (drop p t) = k"
    by (simp_all add: pattern_matches_at_def)
  have "drop p t = take (length k) (drop p t) @ drop (length k) (drop p t)"
    by (simp only: append_take_drop_id)
  then have "drop p t = k @ post"
    using occ by (simp add: post_def add.commute)
  moreover have "t = pre @ drop p t"
    by (simp add: pre_def)
  ultimately have t: "t = pre @ k @ post"
    by simp
  have p: "length pre = p"
    using len by (simp add: pre_def)
  from m have "boundary_at isw t p" and "boundary_at isw t (p + length k)"
    by (simp_all add: pattern_matches_at_def)
  then have "pre = [] \<or> \<not> isw (last pre)" and "post = [] \<or> \<not> isw (hd post)"
    using boundary_before_word [where isw = isw and k = k and pre = pre and post = post]
      boundary_after_word [where isw = isw and k = k and pre = pre and post = post]
      assms t p by auto
  with t p show "\<exists>pre post. t = pre @ k @ post \<and> length pre = p
              \<and> (pre = [] \<or> \<not> isw (last pre)) \<and> (post = [] \<or> \<not> isw (hd post))"
    by blast
next
  assume "\<exists>pre post. t = pre @ k @ post \<and> length pre = p
              \<and> (pre = [] \<or> \<not> isw (last pre)) \<and> (post = [] \<or> \<not> isw (hd post))"
  then obtain pre post where t: "t = pre @ k @ post" and p: "length pre = p"
    and l: "pre = [] \<or> \<not> isw (last pre)" and r: "post = [] \<or> \<not> isw (hd post)"
    by blast
  have "boundary_at isw t p" and "boundary_at isw t (p + length k)"
    using boundary_before_word [where isw = isw and k = k and pre = pre and post = post]
      boundary_after_word [where isw = isw and k = k and pre = pre and post = post]
      assms t p l r by auto
  moreover have "p + length k \<le> length t" and "take (length k) (drop p t) = k"
    using t p by auto
  ultimately show "pattern_matches_at isw k t p"
    by (simp add: pattern_matches_at_def)
qed

text \<open>
  C4 (as amended). For keywords whose lower-cased form begins and ends with a word
  character, \<^verbatim>\<open>match_keywords\<close> is true exactly when some keyword occurs in the lower-cased
  text with a non-word character or an edge of the string on each side. Word characters
  are those of \<^verbatim>\<open>\w\<close>; nothing in the rule looks at scripts.
\<close>

theorem match_keywords_word_delimited:
  assumes "\<forall>K \<in> set Ks. lower K \<noteq> [] \<and> isw (hd (lower K)) \<and> isw (last (lower K))"
  shows "match_keywords isw lower T Ks \<longleftrightarrow>
           (\<exists>K \<in> set Ks. \<exists>pre post. lower T = pre @ lower K @ post
              \<and> (pre = [] \<or> \<not> isw (last pre)) \<and> (post = [] \<or> \<not> isw (hd post)))"
proof -
  have "re_search_word isw (lower K) (lower T) \<longleftrightarrow>
          (\<exists>pre post. lower T = pre @ lower K @ post
              \<and> (pre = [] \<or> \<not> isw (last pre)) \<and> (post = [] \<or> \<not> isw (hd post)))"
    if "K \<in> set Ks" for K
  proof -
    from that assms have k: "lower K \<noteq> []" "isw (hd (lower K))" "isw (last (lower K))"
      by auto
    have "length pre \<le> length (lower T)" if "lower T = pre @ lower K @ post" for pre post
      using that by simp
    then show ?thesis
      unfolding re_search_word_iff
        pattern_matches_at_decomp [where isw = isw and k = "lower K", OF k] by blast
  qed
  then show ?thesis
    unfolding match_keywords_iff by blast
qed

theorem match_keywords_word_delimited_witness:
  "match_keywords word_char ascii_lower (asc ''OpenAI '' @ [21457, 24067]) [asc ''openai'']
   \<and> \<not> match_keywords word_char ascii_lower (asc ''WAIT'') [asc ''AI'']"
proof -
  have k: "\<forall>K \<in> set [asc ''openai'']. ascii_lower K \<noteq> [] \<and> word_char (hd (ascii_lower K))
             \<and> word_char (last (ascii_lower K))"
    by (simp add: ascii_lower_def asc_def word_char_def)
  have "ascii_lower (asc ''OpenAI '' @ [21457, 24067]) = [] @ ascii_lower (asc ''openai'') @ [32, 21457, 24067]"
    by (simp add: ascii_lower_def asc_def)
  then have "\<exists>pre post. ascii_lower (asc ''OpenAI '' @ [21457, 24067]) = pre @ ascii_lower (asc ''openai'') @ post
              \<and> (pre = [] \<or> \<not> word_char (last pre)) \<and> (post = [] \<or> \<not> word_char (hd post))"
    by (intro exI [of _ "[]"] exI [of _ "[32, 21457, 24067]"]) (simp add: word_char_def)
  then have a: "match_keywords word_char ascii_lower (asc ''OpenAI '' @ [21457, 24067]) [asc ''openai'']"
    using match_keywords_word_delimited
            [where isw = word_char and lower = ascii_lower and Ks = "[asc ''openai'']"
               and T = "asc ''OpenAI '' @ [21457, 24067]"] k
    by simp
  have b: "\<not> match_keywords word_char ascii_lower (asc ''WAIT'') [asc ''AI'']"
    by (simp add: re_search_word_def pattern_matches_at_def boundary_at_def ascii_lower_def
          asc_def word_char_def)
  from a b show ?thesis by simp
qed

text \<open>
  As the specification states it, the property fails in two ways. It speaks of
  script-class transitions and of CJK text: a CJK ideograph is a word character, so the
  keyword \<^verbatim>\<open>OpenAI\<close> directly followed by ideographs is not at a boundary, and a CJK
  keyword followed by further ideographs is not either. (The texts are "OpenAI" followed by
  U+53D1 U+5E03 U+65B0 U+6A21 U+578B, and U+4EBA U+5DE5 U+667A U+80FD U+53D1 U+5C55 with the
  keyword U+4EBA U+5DE5 U+667A U+80FD.) And a keyword that ends with a character that is not
  a word character needs a word character after it: \<^verbatim>\<open>c++\<close> between the start of the text
  and a space does not match.
\<close>

theorem match_keywords_cjk_counterexample:
  "\<not> match_keywords word_char ascii_lower
       (asc ''OpenAI'' @ [21457, 24067, 26032, 27169, 22411]) [asc ''OpenAI'']
   \<and> \<not> match_keywords word_char ascii_lower
       [20154, 24037, 26234, 33021, 21457, 23637] [[20154, 24037, 26234, 33021]]
   \<and> \<not> match_keywords word_char ascii_lower (asc ''c++ rocks'') [asc ''c++'']"
  by (simp add: re_search_word_def pattern_matches_at_def boundary_at_def ascii_lower_def
        asc_def word_char_def)

section \<open>Classification\<close>

lemma keyword_hit_iff:
  "keyword_hit word_matches ttl ks \<longleftrightarrow> (\<exists>k \<in> set ks. word_matches ttl k)"
  by (induction ks) auto

lemma match_topics_loop_eq:
  "match_topics_loop word_matches ttl ts matched =
     matched @ map tp_id (filter (\<lambda>t. \<exists>k \<in> set (tp_keywords t). word_matches ttl k) ts)"
  by (induction ts arbitrary: matched) (simp_all add: keyword_hit_iff)

lemma match_topics_eq:
  "match_topics word_matches topics ttl =
     map tp_id (filter (\<lambda>t. \<exists>k \<in> set (tp_keywords t). word_matches ttl k) topics)"
  by (simp add: match_topics_def match_topics_loop_eq)

lemma bucket_dict_append:
  "bucket (dict_append k v res) tid = (if tid = k then bucket res tid @ [v] else bucket res tid)"
  by (induction res) (auto simp: bucket_def)

lemma bucket_add_item:
  "bucket (add_item it tids res) tid = bucket res tid @ replicate (count_list tids tid) it"
  unfolding add_item_def
proof (induction tids arbitrary: res)
  case Nil
  then show ?case by simp
next
  case (Cons a tids)
  then show ?case
    by (simp add: bucket_dict_append replicate_app_Cons_same)
qed

text \<open>The items the hot-list pass and the RSS pass append to the bucket of one topic id.\<close>

lemma bucket_titles_hotlist:
  "bucket (fold (\<lambda>(ttl, d) res'.
                   add_item (hotlist_item src ttl d) (match_topics wm topics ttl) res') titles res) tid
   = bucket res tid @
     concat (map (\<lambda>(ttl, d). replicate (count_list (match_topics wm topics ttl) tid)
                                 (hotlist_item src ttl d)) titles)"
  by (induction titles arbitrary: res) (auto simp: bucket_add_item)

lemma bucket_classify_hotlist:
  "bucket (classify_hotlist wm topics news res) tid
   = bucket res tid @
     concat (map (\<lambda>(src, titles).
       concat (map (\<lambda>(ttl, d). replicate (count_list (match_topics wm topics ttl) tid)
                                   (hotlist_item src ttl d)) titles)) news)"
  unfolding classify_hotlist_def
  by (induction news arbitrary: res) (auto simp: bucket_titles_hotlist)

lemma bucket_titles_rss:
  "bucket (fold (\<lambda>(ttl, d) res'.
                   add_item (rss_item feed ttl d) (match_topics wm topics ttl) res') entries res) tid
   = bucket res tid @
     concat (map (\<lambda>(ttl, d). replicate (count_list (match_topics wm topics ttl) tid)
                                 (rss_item feed ttl d)) entries)"
  by (induction entries arbitrary: res) (auto simp: bucket_add_item)

lemma bucket_classify_rss:
  "bucket (classify_rss wm topics feeds res) tid
   = bucket res tid @
     concat (map (\<lambda>(feed, entries).
       concat (map (\<lambda>(ttl, d). replicate (count_list (match_topics wm topics ttl) tid)
                                   (rss_item feed ttl d)) entries)) feeds)"
  unfolding classify_rss_def
  by (induction feeds arbitrary: res) (auto simp: bucket_titles_rss)

lemma bucket_empty [simp]: "bucket [] tid = []"
  by (simp add: bucket_def)

lemma bucket_lookup: "map_of res tid = Some items \<Longrightarrow> bucket res tid = items"
  by (simp add: bucket_def)

lemma bucket_nonempty_lookup:
  "bucket res tid \<noteq> [] \<Longrightarrow> map_of res tid = Some (bucket res tid)"
  by (auto simp: bucket_def split: option.splits)

lemma count_list_pos: "x \<in> set xs \<Longrightarrow> 0 < count_list xs x"
  by (induction xs) auto

lemma matching_topic_is_matched:
  assumes "t \<in> set topics" and "k \<in> set (tp_keywords t)" and "wm ttl k"
  shows "0 < count_list (match_topics wm topics ttl) (tp_id t)"
proof -
  have "tp_id t \<in> set (match_topics wm topics ttl)"
    using assms by (auto simp: match_topics_eq)
  then show ?thesis by (rule count_list_pos)
qed

lemma bucket_classify:
  "bucket (classify wm topics news rss) tid =
     (if topics = [] then []
      else concat (map (\<lambda>(src, titles).
             concat (map (\<lambda>(ttl, d). replicate (count_list (match_topics wm topics ttl) tid)
                                         (hotlist_item src ttl d)) titles)) news)
           @ (case rss of
                None \<Rightarrow> []
              | Some feeds \<Rightarrow>
                  concat (map (\<lambda>(feed, entries).
                    concat (map (\<lambda>(ttl, d). replicate (count_list (match_topics wm topics ttl) tid)
                                                (rss_item feed ttl d)) entries)) feeds)))"
  by (simp add: classify_def bucket_classify_hotlist bucket_classify_rss split: option.splits)

text \<open>
  C6. \<^verbatim>\<open>_match_topics\<close> returns the id of every topic with at least one keyword that
  matches the title, once per topic and in configuration order (the scan of a topic's
  keywords stops at its first hit, the remaining topics are still visited). Hence
  \<^verbatim>\<open>classify\<close> puts the item of a hot-list title, and of an RSS title, into the bucket of
  every topic that has a matching keyword: one item can be in several buckets.
\<close>

theorem classify_places_item_in_every_matching_topic:
  assumes "t \<in> set topics" and "k \<in> set (tp_keywords t)" and "word_matches ttl k"
  shows "match_topics word_matches topics ttl =
           map tp_id (filter (\<lambda>t. \<exists>k \<in> set (tp_keywords t). word_matches ttl k) topics)
         \<and> ((src, titles) \<in> set news_items \<and> (ttl, d) \<in> set titles \<longrightarrow>
              (\<exists>items. map_of (classify word_matches topics news_items rss_items) (tp_id t)
                          = Some items
                 \<and> hotlist_item src ttl d \<in> set items))
         \<and> (rss_items = Some feeds \<and> (feed, entries) \<in> set feeds \<and> (ttl, d') \<in> set entries \<longrightarrow>
              (\<exists>items. map_of (classify word_matches topics news_items rss_items) (tp_id t)
                          = Some items
                 \<and> rss_item feed ttl d' \<in> set items))"
proof -
  let ?res = "classify word_matches topics news_items rss_items"
  have ne: "topics \<noteq> []"
    using assms(1) by auto
  have pos: "0 < count_list (match_topics word_matches topics ttl) (tp_id t)"
    using assms by (rule matching_topic_is_matched)
  have hot: "hotlist_item src ttl d \<in> set (bucket ?res (tp_id t))"
    if "(src, titles) \<in> set news_items" and "(ttl, d) \<in> set titles"
    using that pos ne by (fastforce simp: bucket_classify)
  have rss: "rss_item feed ttl d' \<in> set (bucket ?res (tp_id t))"
    if "rss_items = Some feeds" and "(feed, entries) \<in> set feeds" and "(ttl, d') \<in> set entries"
    using that pos ne by (fastforce simp: bucket_classify)
  have found: "\<exists>items. map_of ?res (tp_id t) = Some items \<and> x \<in> set items"
    if "x \<in> set (bucket ?res (tp_id t))" for x
  proof -
    from that have "bucket ?res (tp_id t) \<noteq> []"
      by auto
    then have "map_of ?res (tp_id t) = Some (bucket ?res (tp_id t))"
      by (rule bucket_nonempty_lookup)
    with that show ?thesis by blast
  qed
  from hot rss found show ?thesis
    by (simp add: match_topics_eq) blast
qed

text \<open>
  One title with two matching topics (and one topic that does not match) lands in both
  buckets.
\<close>

theorem classify_places_item_witness:
  "classify substring_matches
     [mk_topic ''ai'' [''GPT'', ''AI''], mk_topic ''cars'' [''EV''], mk_topic ''labs'' [''Open'']]
     [(asc ''src1'', [(asc ''OpenAI'', no_title_data)])] None
   = [(asc ''ai'', [hotlist_item (asc ''src1'') (asc ''OpenAI'') no_title_data]),
      (asc ''labs'', [hotlist_item (asc ''src1'') (asc ''OpenAI'') no_title_data])]
   \<and> (\<exists>items. map_of (classify substring_matches
          [mk_topic ''ai'' [''GPT'', ''AI''], mk_topic ''cars'' [''EV''], mk_topic ''labs'' [''Open'']]
          [(asc ''src1'', [(asc ''OpenAI'', no_title_data)])] None) (tp_id (mk_topic ''labs'' [''Open'']))
        = Some items
      \<and> hotlist_item (asc ''src1'') (asc ''OpenAI'') no_title_data \<in> set items)"
proof -
  have a: "mk_topic ''labs'' [''Open''] \<in> set [mk_topic ''ai'' [''GPT'', ''AI''], mk_topic ''cars'' [''EV''], mk_topic ''labs'' [''Open'']]"
    by simp
  have b: "asc ''Open'' \<in> set (tp_keywords (mk_topic ''labs'' [''Open'']))"
    by (simp add: mk_topic_def)
  have c: "substring_matches (asc ''OpenAI'') (asc ''Open'')"
    by (simp add: substring_matches_def asc_def)
  have d: "classify substring_matches
     [mk_topic ''ai'' [''GPT'', ''AI''], mk_topic ''cars'' [''EV''], mk_topic ''labs'' [''Open'']]
     [(asc ''src1'', [(asc ''OpenAI'', no_title_data)])] None
   = [(asc ''ai'', [hotlist_item (asc ''src1'') (asc ''OpenAI'') no_title_data]),
      (asc ''labs'', [hotlist_item (asc ''src1'') (asc ''OpenAI'') no_title_data])]"
    by (simp add: classify_def classify_hotlist_def add_item_def match_topics_def
          substring_matches_def mk_topic_def asc_def)
  from classify_places_item_in_every_matching_topic
         [where word_matches = substring_matches and src = "asc ''src1''"
            and titles = "[(asc ''OpenAI'', no_title_data)]" and d = no_title_data
            and news_items = "[(asc ''src1'', [(asc ''OpenAI'', no_title_data)])]"
            and rss_items = None, OF a b c]
  have "\<exists>items. map_of (classify substring_matches
          [mk_topic ''ai'' [''GPT'', ''AI''], mk_topic ''cars'' [''EV''], mk_topic ''labs'' [''Open'']]
          [(asc ''src1'', [(asc ''OpenAI'', no_title_data)])] None) (tp_id (mk_topic ''labs'' [''Open'']))
        = Some items
      \<and> hotlist_item (asc ''src1'') (asc ''OpenAI'') no_title_data \<in> set items"
    by simp
  with d show ?thesis by blast
qed

text \<open>
  C10. In the mapping that \<^verbatim>\<open>classify\<close> returns, the list of every topic is a run of
  items of source type \<^verbatim>\<open>hotlist\<close> followed by a run of items of source type \<^verbatim>\<open>rss\<close>: every
  hot-list item precedes every RSS item.
\<close>

theorem classify_hotlist_before_rss:
  assumes "map_of (classify word_matches topics news_items rss_items) tid = Some items"
  shows "\<exists>hs rs. items = hs @ rs
           \<and> (\<forall>i \<in> set hs. it_source_type i = Some HOTLIST)
           \<and> (\<forall>i \<in> set rs. it_source_type i = Some RSS)"
proof -
  let ?hs = "concat (map (\<lambda>(src, titles).
             concat (map (\<lambda>(ttl, d). replicate (count_list (match_topics word_matches topics ttl) tid)
                                         (hotlist_item src ttl d)) titles)) news_items)"
  let ?rs = "case rss_items of
                None \<Rightarrow> []
              | Some feeds \<Rightarrow>
                  concat (map (\<lambda>(feed, entries).
                    concat (map (\<lambda>(ttl, d). replicate (count_list (match_topics word_matches topics ttl) tid)
                                                (rss_item feed ttl d)) entries)) feeds)"
  have ne: "topics \<noteq> []"
    using assms by (auto simp: classify_def)
  have "items = bucket (classify word_matches topics news_items rss_items) tid"
    using assms by (simp add: bucket_lookup)
  then have "items = ?hs @ ?rs"
    using ne by (simp add: bucket_classify)
  moreover have "\<forall>i \<in> set ?hs. it_source_type i = Some HOTLIST"
    by (auto simp: hotlist_item_def)
  moreover have "\<forall>i \<in> set ?rs. it_source_type i = Some RSS"
    by (auto simp: rss_item_def split: option.splits)
  ultimately show ?thesis by blast
qed

theorem classify_hotlist_before_rss_witness:
  "map_of (classify substring_matches [mk_topic ''ai'' [''AI'']]
             [(asc ''src1'', [(asc ''AI one'', no_title_data)]),
              (asc ''src2'', [(asc ''AI two'', no_title_data)])]
             (Some [(asc ''feed1'', [(asc ''AI three'', no_item_data), (asc ''other'', no_item_data)])]))
     (asc ''ai'')
   = Some ([hotlist_item (asc ''src1'') (asc ''AI one'') no_title_data,
            hotlist_item (asc ''src2'') (asc ''AI two'') no_title_data]
           @ [rss_item (asc ''feed1'') (asc ''AI three'') no_item_data])
   \<and> (\<exists>hs rs. [hotlist_item (asc ''src1'') (asc ''AI one'') no_title_data,
                hotlist_item (asc ''src2'') (asc ''AI two'') no_title_data,
                rss_item (asc ''feed1'') (asc ''AI three'') no_item_data] = hs @ rs
           \<and> list_all (\<lambda>i. it_source_type i = Some HOTLIST) hs
           \<and> list_all (\<lambda>i. it_source_type i = Some RSS) rs)"
proof -
  have m: "map_of (classify substring_matches [mk_topic ''ai'' [''AI'']]
             [(asc ''src1'', [(asc ''AI one'', no_title_data)]),
              (asc ''src2'', [(asc ''AI two'', no_title_data)])]
             (Some [(asc ''feed1'', [(asc ''AI three'', no_item_data), (asc ''other'', no_item_data)])]))
     (asc ''ai'')
   = Some [hotlist_item (asc ''src1'') (asc ''AI one'') no_title_data,
            hotlist_item (asc ''src2'') (asc ''AI two'') no_title_data,
            rss_item (asc ''feed1'') (asc ''AI three'') no_item_data]"
    by (simp add: classify_def classify_hotlist_def classify_rss_def add_item_def match_topics_def
          substring_matches_def mk_topic_def asc_def)
  from classify_hotlist_before_rss [OF m] m show ?thesis
    by (simp add: list_all_iff)
qed

section \<open>Loading the topic configuration\<close>

lemma validate_loop_eq:
  "validate_loop entries (acc, log) =
     (acc @ map kept_entry (filter complete_entry entries),
      log @ map MsgIncomplete (filter (\<lambda>t. is_dict t \<and> \<not> complete_entry t) entries))"
proof (induction entries arbitrary: acc log)
  case Nil
  then show ?case by simp
next
  case (Cons e entries)
  show ?case
  proof (cases e)
    case (YDict d)
    with Cons show ?thesis
      by (simp add: Let_def dict_get_def)
  qed (simp_all add: Cons)
qed

text \<open>
  C8. Whenever the existence test of the configuration file returns, \<^verbatim>\<open>_load_topics\<close>
  returns a list: a missing file gives the empty list, and so does every exception of the
  body (it is caught). For a parsed document whose \<^verbatim>\<open>topics\<close> can be iterated, the result is
  exactly the entries that are dictionaries with a true \<^verbatim>\<open>id\<close>, \<^verbatim>\<open>name\<close> and \<^verbatim>\<open>keywords\<close> (true
  as Python tests it: not empty, not 0, not null), in order, each with \<^verbatim>\<open>priority\<close> 999 when
  the key is missing; what is printed is one message for every other dictionary entry, in
  order, then the number of topics loaded: an entry that is not a dictionary is dropped
  with no message.
\<close>

theorem load_topics_total_and_filtering:
  "(config \<noteq> Inaccessible \<longrightarrow> (\<exists>r. load_topics config = Inr r))
   \<and> load_topics Missing = Inr ([], [MsgMissingFile])
   \<and> (\<forall>e. config \<noteq> Inaccessible \<and> config \<noteq> Missing \<and> load_topics_body config = Inl e \<longrightarrow>
         load_topics config = Inr ([], [MsgFailed e]))
   \<and> (config = Parsed (YDict data) \<and> py_iter (dict_get data ''topics'' (YList [])) = Inr entries
        \<and> truthy (dict_get data ''topics'' (YList [])) \<longrightarrow>
        load_topics config =
          Inr (map kept_entry (filter complete_entry entries),
               map MsgIncomplete (filter (\<lambda>t. is_dict t \<and> \<not> complete_entry t) entries)
               @ [MsgLoaded (length (filter complete_entry entries))]))
   \<and> (\<forall>d. map_of d (YStr (asc ''priority'')) = None \<longrightarrow> lt_priority (kept_entry (YDict d)) = YInt 999)
   \<and> (\<forall>r. load_topics config = Inr r \<longrightarrow>
         (\<forall>t \<in> set (fst r). truthy (lt_id t) \<and> truthy (lt_name t) \<and> truthy (lt_keywords t)))"
proof -
  have a: "config \<noteq> Inaccessible \<longrightarrow> (\<exists>r. load_topics config = Inr r)"
    by (simp add: load_topics_def split: sum.splits)
  have a': "load_topics Missing = Inr ([], [MsgMissingFile])"
    by (simp add: load_topics_def)
  have b: "\<forall>e. config \<noteq> Inaccessible \<and> config \<noteq> Missing \<and> load_topics_body config = Inl e \<longrightarrow>
         load_topics config = Inr ([], [MsgFailed e])"
    by (auto simp: load_topics_def)
  have c: "load_topics config =
          Inr (map kept_entry (filter complete_entry entries),
               map MsgIncomplete (filter (\<lambda>t. is_dict t \<and> \<not> complete_entry t) entries)
               @ [MsgLoaded (length (filter complete_entry entries))])"
    if "config = Parsed (YDict data)"
      and "py_iter (dict_get data ''topics'' (YList [])) = Inr entries"
      and "truthy (dict_get data ''topics'' (YList []))" for entries data
    using that by (simp add: load_topics_def load_topics_body_def validate_loop_eq)
  have d: "\<forall>d. map_of d (YStr (asc ''priority'')) = None \<longrightarrow> lt_priority (kept_entry (YDict d)) = YInt 999"
    by simp
  have kept: "truthy (lt_id (kept_entry t)) \<and> truthy (lt_name (kept_entry t))
                \<and> truthy (lt_keywords (kept_entry t))" if "complete_entry t" for t
    using that by (cases t) simp_all
  have e: "\<forall>r. load_topics config = Inr r \<longrightarrow>
         (\<forall>t \<in> set (fst r). truthy (lt_id t) \<and> truthy (lt_name t) \<and> truthy (lt_keywords t))"
  proof (cases "load_topics_body config")
    case (Inl err)
    then show ?thesis
      by (auto simp: load_topics_def split: if_splits)
  next
    case (Inr r)
    then show ?thesis
      using kept
      by (auto simp: load_topics_def load_topics_body_def validate_loop_eq Let_def
            split: config_file.splits yaml.splits if_splits sum.splits prod.splits)
  qed
  from a a' b c d e show ?thesis by blast
qed

text \<open>
  A document with a complete topic without \<^verbatim>\<open>priority\<close>, an entry without keywords, an
  entry that is a bare string, and a complete topic with a priority; then documents whose
  loading raises inside the \<^verbatim>\<open>try\<close>.
\<close>

theorem load_topics_total_and_filtering_witness:
  "load_topics (Parsed (YDict [(YStr (asc ''topics''), YList
      [YDict [(YStr (asc ''id''), YStr (asc ''ai'')), (YStr (asc ''name''), YStr (asc ''AI'')),
              (YStr (asc ''keywords''), YList [YStr (asc ''AI'')])],
       YDict [(YStr (asc ''id''), YStr (asc ''x'')), (YStr (asc ''name''), YStr (asc ''X'')),
              (YStr (asc ''keywords''), YList [])],
       YStr (asc ''stray''),
       YDict [(YStr (asc ''id''), YStr (asc ''ev'')), (YStr (asc ''name''), YStr (asc ''EV'')),
              (YStr (asc ''keywords''), YList [YStr (asc ''EV'')]),
              (YStr (asc ''priority''), YInt 1)]])]))
   = Inr ([\<lparr>lt_id = YStr (asc ''ai''), lt_name = YStr (asc ''AI''),
        lt_keywords = YList [YStr (asc ''AI'')], lt_description = YStr [], lt_priority = YInt 999\<rparr>,
       \<lparr>lt_id = YStr (asc ''ev''), lt_name = YStr (asc ''EV''),
        lt_keywords = YList [YStr (asc ''EV'')], lt_description = YStr [], lt_priority = YInt 1\<rparr>],
      [MsgIncomplete (YDict [(YStr (asc ''id''), YStr (asc ''x'')), (YStr (asc ''name''), YStr (asc ''X'')),
              (YStr (asc ''keywords''), YList [])]),
       MsgLoaded 2])
   \<and> load_topics (Parsed (YList [])) = Inr ([], [MsgFailed AttributeError])
   \<and> load_topics (Parsed (YDict [(YStr (asc ''topics''), YInt 5)])) = Inr ([], [MsgFailed TypeError])
   \<and> load_topics Unparsable = Inr ([], [MsgFailed YAMLError])"
proof -
  let ?entries = "[YDict [(YStr (asc ''id''), YStr (asc ''ai'')), (YStr (asc ''name''), YStr (asc ''AI'')),
              (YStr (asc ''keywords''), YList [YStr (asc ''AI'')])],
       YDict [(YStr (asc ''id''), YStr (asc ''x'')), (YStr (asc ''name''), YStr (asc ''X'')),
              (YStr (asc ''keywords''), YList [])],
       YStr (asc ''stray''),
       YDict [(YStr (asc ''id''), YStr (asc ''ev'')), (YStr (asc ''name''), YStr (asc ''EV'')),
              (YStr (asc ''keywords''), YList [YStr (asc ''EV'')]),
              (YStr (asc ''priority''), YInt 1)]]"
  let ?data = "[(YStr (asc ''topics''), YList ?entries)]"
  have i: "py_iter (dict_get ?data ''topics'' (YList [])) = Inr ?entries"
    by (simp add: dict_get_def)
  have t: "truthy (dict_get ?data ''topics'' (YList []))"
    by (simp add: dict_get_def)
  have "load_topics (Parsed (YDict ?data)) =
          Inr (map kept_entry (filter complete_entry ?entries),
               map MsgIncomplete (filter (\<lambda>t. is_dict t \<and> \<not> complete_entry t) ?entries)
               @ [MsgLoaded (length (filter complete_entry ?entries))])"
    using load_topics_total_and_filtering
            [where config = "Parsed (YDict ?data)" and data = ?data and entries = ?entries] i t
    by blast
  then have first: "load_topics (Parsed (YDict ?data)) =
     Inr ([\<lparr>lt_id = YStr (asc ''ai''), lt_name = YStr (asc ''AI''),
        lt_keywords = YList [YStr (asc ''AI'')], lt_description = YStr [], lt_priority = YInt 999\<rparr>,
       \<lparr>lt_id = YStr (asc ''ev''), lt_name = YStr (asc ''EV''),
        lt_keywords = YList [YStr (asc ''EV'')], lt_description = YStr [], lt_priority = YInt 1\<rparr>],
      [MsgIncomplete (YDict [(YStr (asc ''id''), YStr (asc ''x'')), (YStr (asc ''name''), YStr (asc ''X'')),
              (YStr (asc ''keywords''), YList [])]),
       MsgLoaded 2])"
    by (simp add: dict_get_def asc_def)
  have rest: "load_topics (Parsed (YList [])) = Inr ([], [MsgFailed AttributeError])"
    "load_topics (Parsed (YDict [(YStr (asc ''topics''), YInt 5)])) = Inr ([], [MsgFailed TypeError])"
    "load_topics Unparsable = Inr ([], [MsgFailed YAMLError])"
    by (simp_all add: load_topics_def load_topics_body_def dict_get_def)
  from first rest show ?thesis by simp
qed

text \<open>
  Three configurations on which the code leaves the stated behaviour. Entries that are
  not dictionaries (a bare string, a number) lack an id, a name and keywords, and are
  dropped with no message: all that is printed is the number of topics loaded. An entry
  whose \<^verbatim>\<open>keywords\<close> is the number 5 has no keyword to match, and is kept. A file whose
  existence test raises OSError (a name of 300 characters) makes \<^verbatim>\<open>_load_topics\<close> raise
  it, since the test stands before the \<^verbatim>\<open>try\<close>.
\<close>

theorem load_topics_counterexample:
  "load_topics (Parsed (YDict [(YStr (asc ''topics''), YList [YStr (asc ''stray''), YInt 3])]))
     = Inr ([], [MsgLoaded 0])
   \<and> load_topics (Parsed (YDict [(YStr (asc ''topics''), YList
        [YDict [(YStr (asc ''id''), YStr (asc ''ai'')), (YStr (asc ''name''), YStr (asc ''AI'')),
                (YStr (asc ''keywords''), YInt 5)]])]))
     = Inr ([\<lparr>lt_id = YStr (asc ''ai''), lt_name = YStr (asc ''AI''), lt_keywords = YInt 5,
              lt_description = YStr [], lt_priority = YInt 999\<rparr>], [MsgLoaded 1])
   \<and> load_topics Inaccessible = Inl OSError"
  by (simp add: load_topics_def load_topics_body_def dict_get_def asc_def)

section \<open>Evaluating the record format on concrete inputs\<close>

lemmas record_literals =
  NOTES_HEADER_def IMPORTANCE_HEADER_def NOTES_PLACEHOLDER_def IMPORTANCE_COMMENT_def
  IMPORTANCE_BOXES_def STATS_HEADER_def CONTENT_HEADER_def HOTLIST_HEADER_def RSS_HEADER_def
  TOTAL_LABEL_def HOTLIST_LABEL_def RSS_LABEL_def TIAO_def UNKNOWN_SOURCE_def SOURCE_LABEL_def
  RANK_LABEL_def TIME_LABEL_def PUBLISHED_LABEL_def AUTHOR_LABEL_def SUMMARY_LABEL_def
  HOTLIST_def RSS_def BEFORE_NOTES_def BETWEEN_REGIONS_def TRUNCATION_NOTICE_def asc_def

lemmas record_format =
  generate_markdown_def derived_lines_def human_lines_def hotlist_lines_def rss_lines_def
  title_line_def enumerate1_def or_default_def str_int_def

lemmas example_inputs =
  example_item_def example_date_def example_topic_id_def example_topic_name_def

lemma example_record:
  "generate_markdown (asc ''2026-01-19'') example_topic_name [example_item] =
     asc ''# AI'' @ [31185, 25216] @ asc '' - 2026-01-19'' @ [10, 10]
     @ STATS_HEADER @ [10, 10]
     @ TOTAL_LABEL @ asc ''1 '' @ TIAO @ [10]
     @ HOTLIST_LABEL @ asc ''1 '' @ TIAO @ [10]
     @ RSS_LABEL @ asc ''0 '' @ TIAO @ [10, 10]
     @ CONTENT_HEADER @ [10, 10]
     @ HOTLIST_HEADER @ [10, 10]
     @ asc ''1. **[OpenAI'' @ [21457, 24067, 26032, 27169, 22411] @ asc ''](http://x/1)**'' @ [10]
     @ SOURCE_LABEL @ asc ''src1 | '' @ [20986, 29616] @ asc '' 2 '' @ [27425, 10]
     @ RANK_LABEL @ asc ''#1'' @ [10]
     @ TIME_LABEL @ asc ''09:00 ~ 10:00'' @ [10, 10]
     @ BEFORE_NOTES @ [10] @ NOTES_PLACEHOLDER @ [10] @ BETWEEN_REGIONS @ [10]
     @ IMPORTANCE_BOXES @ [10]"
  by (simp add: record_format record_literals example_inputs)

section \<open>The length of the history digest\<close>

lemma length_py_join:
  "length (py_join sep xs) = sum_list (map length xs) + length sep * (length xs - 1)"
  by (induction sep xs rule: py_join.induct) simp_all

lemma summaries_loop_bound:
  assumes "int (sum_list (map length summaries)) = total_chars"
    and "total_chars \<le> max 0 max_chars"
  shows "int (sum_list (map length
            (summaries_loop py_int fs dates max_chars listing summaries total_chars)))
           \<le> max 0 max_chars + int (length TRUNCATION_NOTICE)
         \<and> length (summaries_loop py_int fs dates max_chars listing summaries total_chars)
           \<le> length summaries + length listing"
  using assms
proof (induction listing arbitrary: summaries total_chars)
  case Nil
  then show ?case by simp
next
  case (Cons entry listing)
  obtain name is_dir where entry: "entry = (name, is_dir)"
    by (cases entry)
  show ?case
  proof (cases "is_dir")
    case False
    with Cons entry show ?thesis by fastforce
  next
    case True
    show ?thesis
    proof (cases "summarize_topic_history py_int fs name dates")
      case None
      with Cons entry True show ?thesis by fastforce
    next
      case (Some r)
      obtain topic_name content where r: "r = (topic_name, content)"
        by (cases r)
      let ?text = "asc ''### '' @ topic_name @ [10, 10] @ content @ [10]"
      show ?thesis
      proof (cases "total_chars + int (length ?text) > max_chars")
        case over: True
        have "summaries_loop py_int fs dates max_chars (entry # listing) summaries total_chars
                = summaries @ [TRUNCATION_NOTICE]"
          using entry True Some r over by (simp add: Let_def)
        with Cons.prems show ?thesis by simp
      next
        case fits: False
        have step: "summaries_loop py_int fs dates max_chars (entry # listing) summaries total_chars
                = summaries_loop py_int fs dates max_chars listing (summaries @ [?text])
                    (total_chars + int (length ?text))"
          using entry True Some r fits by (simp add: Let_def)
        have a: "int (sum_list (map length (summaries @ [?text]))) = total_chars + int (length ?text)"
          using Cons.prems(1) by simp
        have b: "total_chars + int (length ?text) \<le> max 0 max_chars"
          using fits by simp
        from Cons.IH [OF a b] step show ?thesis by simp
      qed
    qed
  qed
qed

lemma build_digest_bound:
  "int (length (build_digest py_int store dates max_tokens))
     \<le> max 0 (max_chars_of max_tokens) + int (length (digest_header dates))
       + int (length (or_default (store_listing store) [])) + int (length TRUNCATION_NOTICE)"
proof (cases "store_listing store")
  case None
  then show ?thesis by (simp add: build_digest_def)
next
  case (Some listing)
  let ?s = "summaries_loop py_int (store_files store) dates (max_chars_of max_tokens) listing [] 0"
  have "int (sum_list (map length ?s)) \<le> max 0 (max_chars_of max_tokens) + int (length TRUNCATION_NOTICE)"
    and "length ?s \<le> length listing"
    using summaries_loop_bound [of "[]" 0 "max_chars_of max_tokens" py_int "store_files store" dates listing]
    by simp_all
  then have "int (length (py_join [10] ?s))
               \<le> max 0 (max_chars_of max_tokens) + int (length TRUNCATION_NOTICE) + int (length listing)"
    by (simp add: length_py_join)
  then show ?thesis
    using Some by (simp add: build_digest_def Let_def or_default_def)
qed

text \<open>
  C3 (as amended). Whenever \<^verbatim>\<open>get_recent_summaries\<close> returns a string, its length is at most
  \<^verbatim>\<open>int(max_tokens * 1.5)\<close> (0 if that is negative), plus the length of the two header lines
  for the window, plus one line feed per entry of the base directory (the subsections are
  joined by line feeds), plus the length of the truncation notice: the budget is checked
  against the subsections only.
\<close>

theorem get_recent_summaries_length_bound:
  assumes "get_recent_summaries strptime strftime py_int today store days current_date max_tokens
             = Inr s"
  shows "\<exists>dates.
           get_date_range strptime strftime (or_default current_date today) days True = Inr dates
           \<and> int (length s)
               \<le> max 0 (max_chars_of max_tokens) + int (length (digest_header dates))
                 + int (length (or_default (store_listing store) []))
                 + int (length TRUNCATION_NOTICE)"
  using assms build_digest_bound [of py_int store _ max_tokens]
  by (auto simp: get_recent_summaries_def split: sum.splits)

lemma example_window:
  "get_date_range strptime_iso strftime_iso (asc ''2026-01-20'') 7 True =
     Inr (map asc [''2026-01-19'', ''2026-01-18'', ''2026-01-17'', ''2026-01-16'',
                   ''2026-01-15'', ''2026-01-14'', ''2026-01-13''])"
  by code_simp

lemma example_record_stats:
  "extract_stats ascii_int (generate_markdown (asc ''2026-01-19'') example_topic_name [example_item])
     = \<lparr>st_total_items = 1, st_hotlist = 1, st_rss = 0\<rparr>"
  by (simp add: extract_stats_def parse_count_def ascii_int_def strip_def is_space_def
        digit_val_def record_format record_literals example_inputs)

lemma example_record_notes:
  "extract_human_notes (generate_markdown (asc ''2026-01-19'') example_topic_name [example_item]) = []"
  by (simp add: extract_human_notes_def strip_def is_space_def
        record_format record_literals example_inputs)

lemma example_summary:
  "summarize_topic_history ascii_int (store_files example_store) example_topic_id
     (map asc [''2026-01-19'', ''2026-01-18'', ''2026-01-17'', ''2026-01-16'',
               ''2026-01-15'', ''2026-01-14'', ''2026-01-13''])
   = Some (asc ''AI'' @ [31185, 25216],
           asc ''**2026-01-19**: 1'' @ [26465] @ asc '' ('' @ [28909, 27036] @ asc ''1, RSS0)'')"
proof -
  have n: "generate_markdown (asc ''2026-01-19'') example_topic_name [example_item] \<noteq> []"
    by (simp add: example_record)
  have h: "history_loop ascii_int (store_files example_store) example_topic_id
     (map asc [''2026-01-19'', ''2026-01-18'', ''2026-01-17'', ''2026-01-16'',
               ''2026-01-15'', ''2026-01-14'', ''2026-01-13'']) []
     = [(asc ''2026-01-19'', \<lparr>st_total_items = 1, st_hotlist = 1, st_rss = 0\<rparr>, [])]"
    using example_record_stats example_record_notes n
    by (simp add: example_store_def read_topic_file_def Let_def example_topic_id_def asc_def)
  show ?thesis
    unfolding summarize_topic_history_def h
    by (simp add: example_store_def read_topic_file_def history_lines_def Let_def
          strip_def is_space_def str_int_def record_format record_literals example_inputs)
qed

lemma example_store_digest:
  assumes "42 \<le> max_chars_of max_tokens"
  shows "get_recent_summaries strptime_iso strftime_iso ascii_int [] example_store 7
           (Some (asc ''2026-01-20'')) max_tokens = Inr example_digest"
proof -
  have "build_digest ascii_int example_store
          (map asc [''2026-01-19'', ''2026-01-18'', ''2026-01-17'', ''2026-01-16'',
                    ''2026-01-15'', ''2026-01-14'', ''2026-01-13'']) max_tokens
     = example_digest"
    using example_summary assms
    by (simp add: build_digest_def example_store_def digest_header_def example_digest_def
          str_int_def Let_def example_topic_id_def asc_def)
  then show ?thesis
    by (simp add: get_recent_summaries_def example_window or_default_def)
qed

theorem get_recent_summaries_length_bound_witness:
  "get_recent_summaries strptime_iso strftime_iso ascii_int [] example_store 7
       (Some (asc ''2026-01-20'')) 3000 = Inr example_digest
   \<and> (\<exists>dates. get_date_range strptime_iso strftime_iso (asc ''2026-01-20'') 7 True = Inr dates
        \<and> int (length example_digest)
            \<le> max 0 (max_chars_of 3000) + int (length (digest_header dates))
              + int (length (or_default (store_listing example_store) []))
              + int (length TRUNCATION_NOTICE))"
proof -
  have r: "get_recent_summaries strptime_iso strftime_iso ascii_int [] example_store 7
       (Some (asc ''2026-01-20'')) 3000 = Inr example_digest"
    by (rule example_store_digest) (simp add: max_chars_of_def)
  from get_recent_summaries_length_bound [OF r] r show ?thesis
    by (simp add: or_default_def)
qed

text \<open>
  As the specification states it, the bound fails: with \<open>max_tokens = 40\<close> the budget is 60
  characters and the
  notice has 20, but the digest of a store with one short record has 90 characters (49 of
  them in the header, which the budget check does not count).
\<close>

theorem digest_length_counterexample:
  "get_recent_summaries strptime_iso strftime_iso ascii_int [] example_store 7
       (Some (asc ''2026-01-20'')) 40 = Inr example_digest
   \<and> length example_digest = 90 \<and> max_chars_of 40 = 60 \<and> length TRUNCATION_NOTICE = 20
   \<and> int (length example_digest) > max_chars_of 40 + int (length TRUNCATION_NOTICE)"
proof -
  have "get_recent_summaries strptime_iso strftime_iso ascii_int [] example_store 7
       (Some (asc ''2026-01-20'')) 40 = Inr example_digest"
    by (rule example_store_digest) (simp add: max_chars_of_def)
  moreover have "length example_digest = 90"
    by (simp add: example_digest_def asc_def)
  moreover have "max_chars_of 40 = 60" and "length TRUNCATION_NOTICE = 20"
    by (simp_all add: max_chars_of_def TRUNCATION_NOTICE_def asc_def)
  ultimately show ?thesis
    by simp
qed

section \<open>Replacing and splitting\<close>

lemma contains_iff_sublist: "contains sub s \<longleftrightarrow> sublist sub s"
  by (induction s) (simp_all add: sublist_Cons_right)

lemma contains_middle: "contains sub (pre @ sub @ post)"
  by (simp add: contains_iff_sublist)

lemma py_split_not_empty: "py_split sep s \<noteq> []"
  by (induction sep s rule: py_split.induct) (auto split: list.splits)

lemma py_join_append:
  "xs \<noteq> [] \<Longrightarrow> ys \<noteq> [] \<Longrightarrow> py_join sep (xs @ ys) = py_join sep xs @ sep @ py_join sep ys"
proof (induction sep xs rule: py_join.induct)
  case (1 sep)
  then show ?case by simp
next
  case (2 sep x)
  then show ?case by (cases ys) simp_all
next
  case (3 sep x y zs)
  then show ?case by simp
qed

lemma prefix_before_separator:
  assumes "c \<notin> set old" and "prefix old (xs @ c # ys)"
  shows "prefix old xs"
proof -
  from assms(2) consider "prefix old xs" | us where "old = xs @ us" and "prefix us (c # ys)"
    by (auto simp: prefix_append)
  then show ?thesis
  proof cases
    case 1
    then show ?thesis .
  next
    case 2
    with assms(1) have "us = []"
      by (cases us) auto
    with 2 show ?thesis by simp
  qed
qed

lemma replace_all_at_match:
  "old \<noteq> [] \<Longrightarrow> prefix old s \<Longrightarrow>
     replace_all old new s = new @ replace_all old new (drop (length old) s)"
  by (cases s) simp_all

text \<open>
  A character that does not occur in \<open>old\<close> cannot be part of a match: the replacement
  works on the two sides of it independently.
\<close>

lemma replace_all_separator:
  assumes "old \<noteq> []" and "c \<notin> set old"
  shows "replace_all old new (xs @ c # ys) = replace_all old new xs @ c # replace_all old new ys"
proof (induction xs rule: length_induct)
  case (1 xs)
  show ?case
  proof (cases "prefix old (xs @ c # ys)")
    case True
    then have p: "prefix old xs"
      using assms(2) by (rule prefix_before_separator [rotated])
    then have len: "length old \<le> length xs"
      by (rule prefix_length_le)
    then have shorter: "length (drop (length old) xs) < length xs"
      using assms(1) by (cases old) auto
    have d: "drop (length old) (xs @ c # ys) = drop (length old) xs @ c # ys"
      using len by simp
    have a: "replace_all old new (xs @ c # ys)
            = new @ replace_all old new (drop (length old) xs @ c # ys)"
      using replace_all_at_match [OF assms(1) True] d by simp
    have b: "replace_all old new (drop (length old) xs @ c # ys)
            = replace_all old new (drop (length old) xs) @ c # replace_all old new ys"
      using 1 shorter by simp
    have "new @ replace_all old new (drop (length old) xs) = replace_all old new xs"
      using replace_all_at_match [OF assms(1) p] by simp
    with a b show ?thesis by simp
  next
    case False
    show ?thesis
    proof (cases xs)
      case Nil
      with False assms(1) show ?thesis by simp
    next
      case (Cons x xs')
      from False have "\<not> prefix old xs"
        by (auto simp: prefix_append)
      with False Cons assms(1) 1 show ?thesis by simp
    qed
  qed
qed

lemma replace_all_absent:
  "old \<noteq> [] \<Longrightarrow> \<not> contains old s \<Longrightarrow> replace_all old new s = s"
  by (induction s) simp_all

lemma replace_all_whole:
  "old \<noteq> [] \<Longrightarrow> replace_all old new old = new"
  by (cases old) simp_all

lemma py_split_absent: "\<not> contains sep s \<Longrightarrow> py_split sep s = [s]"
  by (induction s) simp_all

lemma py_split_at_match:
  "sep \<noteq> [] \<Longrightarrow> prefix sep s \<Longrightarrow> py_split sep s = [] # py_split sep (drop (length sep) s)"
  by (cases s) simp_all

lemma py_split_step:
  assumes "\<not> (sep \<noteq> [] \<and> prefix sep (c # cs))"
  shows "py_split sep (c # cs) = (c # hd (py_split sep cs)) # tl (py_split sep cs)"
proof -
  have "py_split sep cs \<noteq> []"
    by (rule py_split_not_empty)
  then obtain p ps where "py_split sep cs = p # ps"
    by (cases "py_split sep cs") auto
  with assms show ?thesis by auto
qed

lemma py_split_separator:
  assumes "c \<notin> set sep"
  shows "py_split sep (xs @ c # ys) =
           butlast (py_split sep xs) @ (last (py_split sep xs) @ c # hd (py_split sep ys))
             # tl (py_split sep ys)"
proof (induction xs rule: length_induct)
  case (1 xs)
  show ?case
  proof (cases "sep \<noteq> [] \<and> prefix sep (xs @ c # ys)")
    case True
    then have "prefix sep (xs @ c # ys)"
      by simp
    with assms have p: "prefix sep xs"
      by (rule prefix_before_separator)
    then have len: "length sep \<le> length xs"
      by (rule prefix_length_le)
    have shorter: "length (drop (length sep) xs) < length xs"
      using True len by (cases sep) auto
    have d: "drop (length sep) (xs @ c # ys) = drop (length sep) xs @ c # ys"
      using len by simp
    have a: "py_split sep (xs @ c # ys) = [] # py_split sep (drop (length sep) xs @ c # ys)"
      using py_split_at_match [of sep "xs @ c # ys"] True d by (simp del: py_split.simps)
    have b: "py_split sep xs = [] # py_split sep (drop (length sep) xs)"
      using py_split_at_match [of sep xs] True p by (simp del: py_split.simps)
    have ne: "py_split sep (drop (length sep) xs) \<noteq> []"
      by (rule py_split_not_empty)
    from 1 shorter have "py_split sep (drop (length sep) xs @ c # ys) =
        butlast (py_split sep (drop (length sep) xs))
        @ (last (py_split sep (drop (length sep) xs)) @ c # hd (py_split sep ys))
          # tl (py_split sep ys)"
      by (simp del: py_split.simps)
    with a b ne show ?thesis by (simp del: py_split.simps)
  next
    case False
    show ?thesis
    proof (cases xs)
      case Nil
      have "py_split sep (c # ys) = (c # hd (py_split sep ys)) # tl (py_split sep ys)"
        using False Nil by (intro py_split_step) simp
      with Nil show ?thesis by simp
    next
      case (Cons x xs')
      have "prefix sep (xs @ c # ys)" if "prefix sep xs"
        using that by (simp add: prefix_prefix)
      with False Cons have np: "\<not> (sep \<noteq> [] \<and> prefix sep (x # xs'))"
        by blast
      have ne: "py_split sep xs' \<noteq> []"
        by (rule py_split_not_empty)
      from 1 Cons have ih: "py_split sep (xs' @ c # ys) =
          butlast (py_split sep xs') @ (last (py_split sep xs') @ c # hd (py_split sep ys))
            # tl (py_split sep ys)"
        by (simp del: py_split.simps)
      have l: "py_split sep (xs @ c # ys) =
                 (x # hd (py_split sep (xs' @ c # ys))) # tl (py_split sep (xs' @ c # ys))"
        using False Cons py_split_step [of sep x "xs' @ c # ys"] by (simp del: py_split.simps)
      have r: "py_split sep xs = (x # hd (py_split sep xs')) # tl (py_split sep xs')"
        using np Cons py_split_step [of sep x xs'] by (simp del: py_split.simps)
      obtain p ps where s: "py_split sep xs' = p # ps"
        using ne by (cases "py_split sep xs'") auto
      show ?thesis
        unfolding l r ih s by (cases ps) simp_all
    qed
  qed
qed

section \<open>Saving a record again\<close>

lemma generate_markdown_shape:
  "generate_markdown date topic_name items =
     derived_part date topic_name items @ 10 # BEFORE_NOTES @ 10 # NOTES_PLACEHOLDER
       @ 10 # BETWEEN_REGIONS @ 10 # IMPORTANCE_BOXES @ [10]"
proof -
  have "derived_lines date topic_name items \<noteq> []"
    by (simp add: derived_lines_def Let_def)
  moreover have "human_lines \<noteq> []"
    by (simp add: human_lines_def)
  ultimately have "generate_markdown date topic_name items =
      derived_part date topic_name items @ [10] @ py_join [10] human_lines"
    by (simp add: generate_markdown_def derived_part_def py_join_append)
  then show ?thesis
    by (simp add: human_lines_def BEFORE_NOTES_def BETWEEN_REGIONS_def)
qed

lemma replace_all_five_lines:
  assumes "old \<noteq> []" and "10 \<notin> set old"
  shows "replace_all old new (d @ 10 # a @ 10 # n @ 10 # b @ 10 # c @ [10]) =
           replace_all old new d @ 10 # replace_all old new a @ 10 # replace_all old new n
             @ 10 # replace_all old new b @ 10 # replace_all old new c @ [10]"
  using assms by (simp add: replace_all_separator)

lemma placeholder_facts:
  "NOTES_PLACEHOLDER \<noteq> []" "10 \<notin> set NOTES_PLACEHOLDER"
  "\<not> contains NOTES_PLACEHOLDER BEFORE_NOTES" "\<not> contains NOTES_PLACEHOLDER BETWEEN_REGIONS"
  "\<not> contains NOTES_PLACEHOLDER IMPORTANCE_BOXES"
  by (simp_all add: record_literals)

lemma boxes_facts:
  "IMPORTANCE_BOXES \<noteq> []" "10 \<notin> set IMPORTANCE_BOXES"
  "\<not> contains IMPORTANCE_BOXES BEFORE_NOTES" "\<not> contains IMPORTANCE_BOXES BETWEEN_REGIONS"
  "\<not> contains IMPORTANCE_BOXES NOTES_PLACEHOLDER"
  by (simp_all add: record_literals)

text \<open>
  The two replacements on a fresh record: when the notes do not contain the line of check
  boxes, each region is replaced in its place and nothing else of the human-editable part
  changes.
\<close>

lemma splice_fresh_record:
  assumes "\<not> contains IMPORTANCE_BOXES N"
  shows "splice_regions N I
           (d @ 10 # BEFORE_NOTES @ 10 # NOTES_PLACEHOLDER @ 10 # BETWEEN_REGIONS
              @ 10 # IMPORTANCE_BOXES @ [10])
         = splice_regions N I d @ 10 # BEFORE_NOTES
             @ 10 # (if N = [] then NOTES_PLACEHOLDER else N)
             @ 10 # BETWEEN_REGIONS
             @ 10 # (if I = [] then IMPORTANCE_BOXES else I) @ [10]"
proof -
  let ?N = "if N = [] then NOTES_PLACEHOLDER else N"
  let ?d1 = "if N = [] then d else replace_all NOTES_PLACEHOLDER N d"
  have first: "(if N \<noteq> [] then replace_all NOTES_PLACEHOLDER N
                   (d @ 10 # BEFORE_NOTES @ 10 # NOTES_PLACEHOLDER @ 10 # BETWEEN_REGIONS
                      @ 10 # IMPORTANCE_BOXES @ [10])
                else d @ 10 # BEFORE_NOTES @ 10 # NOTES_PLACEHOLDER @ 10 # BETWEEN_REGIONS
                      @ 10 # IMPORTANCE_BOXES @ [10])
               = ?d1 @ 10 # BEFORE_NOTES @ 10 # ?N @ 10 # BETWEEN_REGIONS
                      @ 10 # IMPORTANCE_BOXES @ [10]"
    by (simp add: replace_all_five_lines placeholder_facts replace_all_absent replace_all_whole)
  have keep: "\<not> contains IMPORTANCE_BOXES ?N"
    using assms by (simp add: boxes_facts)
  have second: "replace_all IMPORTANCE_BOXES I
                  (?d1 @ 10 # BEFORE_NOTES @ 10 # ?N @ 10 # BETWEEN_REGIONS
                      @ 10 # IMPORTANCE_BOXES @ [10])
                = replace_all IMPORTANCE_BOXES I ?d1 @ 10 # BEFORE_NOTES @ 10 # ?N
                      @ 10 # BETWEEN_REGIONS @ 10 # I @ [10]"
    using keep
    by (simp only: replace_all_five_lines [OF boxes_facts(1,2)]
          replace_all_absent [OF boxes_facts(1)] boxes_facts replace_all_whole [OF boxes_facts(1)]
          not_False_eq_True)
  show ?thesis
    unfolding splice_regions_def Let_def first
    using second by (cases "I = []") (simp_all)
qed

lemma splice_regions_absent:
  assumes "\<not> contains NOTES_PLACEHOLDER d" and "\<not> contains IMPORTANCE_BOXES d"
  shows "splice_regions N I d = d"
  using assms by (simp add: splice_regions_def replace_all_absent placeholder_facts boxes_facts)

lemma append_to_existing_shape:
  assumes "extract_human existing = (N, I)" and "\<not> contains IMPORTANCE_BOXES N"
  shows "append_to_existing existing topic_id date new_items =
           splice_regions N I (derived_part date (extract_topic_name topic_id existing) new_items)
             @ 10 # BEFORE_NOTES @ 10 # (if N = [] then NOTES_PLACEHOLDER else N)
             @ 10 # BETWEEN_REGIONS @ 10 # (if I = [] then IMPORTANCE_BOXES else I) @ [10]"
proof -
  have "append_to_existing existing topic_id date new_items =
          splice_regions N I
            (generate_markdown date (extract_topic_name topic_id existing) new_items)"
    using assms(1) by (simp add: append_to_existing_def splice_regions_def Let_def)
  then show ?thesis
    using splice_fresh_record [OF assms(2)] by (simp add: generate_markdown_shape)
qed

lemma differ_before_common_suffix: "a \<noteq> b \<Longrightarrow> xs @ a # s \<noteq> ys @ b # s"
  by (simp add: append_eq_append_conv)

text \<open>
  What \<^verbatim>\<open>_append_to_existing\<close> reads back from a fresh record whose derived part does not
  contain the notes header: the placeholder as notes, and the HTML comment together with
  the line of check boxes as importance mark.
\<close>

lemma fresh_regions:
  assumes "\<not> contains NOTES_HEADER d"
  shows "extract_human (d @ 10 # BEFORE_NOTES @ 10 # NOTES_PLACEHOLDER @ 10 # BETWEEN_REGIONS
                          @ 10 # IMPORTANCE_BOXES @ [10])
         = (NOTES_PLACEHOLDER, IMPORTANCE_COMMENT @ [10, 10] @ IMPORTANCE_BOXES)"
proof -
  let ?T = "BEFORE_NOTES @ 10 # NOTES_PLACEHOLDER @ 10 # BETWEEN_REGIONS @ 10 # IMPORTANCE_BOXES @ [10]"
  let ?rest = "[10, 10] @ NOTES_PLACEHOLDER @ [10, 10, 10] @ IMPORTANCE_HEADER @ [10, 10]
                 @ IMPORTANCE_COMMENT @ [10, 10] @ IMPORTANCE_BOXES @ [10]"
  have nl: "10 \<notin> set NOTES_HEADER"
    by (simp add: record_literals)
  have t: "py_split NOTES_HEADER ?T = [[10] @ asc ''---'' @ [10, 10], ?rest]"
    by (simp add: record_literals)
  have parts: "py_split NOTES_HEADER (d @ 10 # ?T) = [d @ 10 # [10] @ asc ''---'' @ [10, 10], ?rest]"
    using py_split_separator [OF nl, of d ?T] py_split_absent [OF assms] t
    by (simp del: py_split.simps)
  have e: "d @ 10 # ?T = (d @ 10 # [10] @ asc ''---'' @ [10, 10]) @ NOTES_HEADER @ ?rest"
    by (simp add: BEFORE_NOTES_def BETWEEN_REGIONS_def)
  have c: "contains NOTES_HEADER (d @ 10 # ?T)"
    by (subst e) (rule contains_middle)
  have regions: "py_split IMPORTANCE_HEADER ?rest =
          [[10, 10] @ NOTES_PLACEHOLDER @ [10, 10, 10],
           [10, 10] @ IMPORTANCE_COMMENT @ [10, 10] @ IMPORTANCE_BOXES @ [10]]"
    by (simp add: record_literals)
  have strips: "strip ([10, 10] @ NOTES_PLACEHOLDER @ [10, 10, 10]) = NOTES_PLACEHOLDER"
    "strip ([10, 10] @ IMPORTANCE_COMMENT @ [10, 10] @ IMPORTANCE_BOXES @ [10])
       = IMPORTANCE_COMMENT @ [10, 10] @ IMPORTANCE_BOXES"
    by (simp_all add: strip_def is_space_def record_literals)
  show ?thesis
    unfolding extract_human_def parts using c regions strips by simp
qed

lemma example_derived_part:
  "derived_part example_date example_topic_name [example_item] =
     asc ''# AI'' @ [31185, 25216] @ asc '' - 2026-01-20'' @ [10, 10]
     @ STATS_HEADER @ [10, 10]
     @ TOTAL_LABEL @ asc ''1 '' @ TIAO @ [10]
     @ HOTLIST_LABEL @ asc ''1 '' @ TIAO @ [10]
     @ RSS_LABEL @ asc ''0 '' @ TIAO @ [10, 10]
     @ CONTENT_HEADER @ [10, 10]
     @ HOTLIST_HEADER @ [10, 10]
     @ asc ''1. **[OpenAI'' @ [21457, 24067, 26032, 27169, 22411] @ asc ''](http://x/1)**'' @ [10]
     @ SOURCE_LABEL @ asc ''src1 | '' @ [20986, 29616] @ asc '' 2 '' @ [27425, 10]
     @ RANK_LABEL @ asc ''#1'' @ [10]
     @ TIME_LABEL @ asc ''09:00 ~ 10:00'' @ [10]"
  by (simp add: derived_part_def record_format record_literals example_inputs)

lemma empty_derived_part:
  "derived_part example_date example_topic_name [] =
     asc ''# AI'' @ [31185, 25216] @ asc '' - 2026-01-20'' @ [10, 10]
     @ STATS_HEADER @ [10, 10]
     @ TOTAL_LABEL @ asc ''0 '' @ TIAO @ [10]
     @ HOTLIST_LABEL @ asc ''0 '' @ TIAO @ [10]
     @ RSS_LABEL @ asc ''0 '' @ TIAO @ [10, 10]
     @ CONTENT_HEADER @ [10]"
  by (simp add: derived_part_def record_format record_literals example_inputs)

lemma example_derived_part_clean:
  "\<not> contains NOTES_PLACEHOLDER (derived_part example_date example_topic_name [example_item])"
  "\<not> contains IMPORTANCE_BOXES (derived_part example_date example_topic_name [example_item])"
  "\<not> contains NOTES_PLACEHOLDER (derived_part example_date example_topic_name [])"
  "\<not> contains IMPORTANCE_BOXES (derived_part example_date example_topic_name [])"
  unfolding example_derived_part empty_derived_part
  by (simp_all add: record_literals)

lemma fresh_record_regions:
  "extract_human (generate_markdown example_date example_topic_name [example_item])
     = (NOTES_PLACEHOLDER, IMPORTANCE_COMMENT @ [10, 10] @ IMPORTANCE_BOXES)"
  unfolding generate_markdown_shape example_derived_part
  by (simp add: extract_human_def strip_def is_space_def record_literals)

lemma fresh_record_name:
  "extract_topic_name example_topic_id
     (generate_markdown example_date example_topic_name [example_item]) = example_topic_name"
  unfolding generate_markdown_shape example_derived_part
  by (simp add: extract_topic_name_def strip_def is_space_def record_literals example_inputs)

lemma human_record_regions:
  "extract_human (human_record (asc ''AI is moving fast'') (asc ''5''))
     = (asc ''AI is moving fast'', IMPORTANCE_COMMENT @ [10, 10] @ asc ''5'')"
  "extract_human (human_record edited_notes (asc ''5''))
     = (edited_notes, IMPORTANCE_COMMENT @ [10, 10] @ asc ''5'')"
  unfolding human_record_def example_derived_part
  by (simp_all add: extract_human_def edited_notes_def strip_def is_space_def record_literals)

lemma human_record_name:
  "extract_topic_name example_topic_id (human_record notes mark) = example_topic_name"
  unfolding human_record_def example_derived_part
  by (simp add: extract_topic_name_def strip_def is_space_def record_literals example_inputs)

text \<open>
  C2, on the code. Saving in append mode regenerates the record from the new items and
  puts the two human regions of the old file back by two global replacements; neither
  region is carried over as it was. First, an old record with the notes
  \<^verbatim>\<open>AI is moving fast\<close> and the mark \<^verbatim>\<open>5\<close>, saved with an empty item list: the importance
  region of the old file is the HTML comment and the mark, that of the new file is the
  comment twice and the mark, since the region is read together with its comment and put
  in place of the line of check boxes alone. Second, an old record whose notes quote the
  line of check boxes: the second replacement rewrites that line inside the notes as well,
  and the notes of the old file are nowhere in the new file.
\<close>

theorem append_alters_human_regions:
  "extract_human (human_record (asc ''AI is moving fast'') (asc ''5''))
     = (asc ''AI is moving fast'', IMPORTANCE_COMMENT @ [10, 10] @ asc ''5'')
   \<and> save_topic_classification
       [(example_topic_id, example_date) \<mapsto> human_record (asc ''AI is moving fast'') (asc ''5'')]
       example_date example_topic_id example_topic_name [] True (example_topic_id, example_date)
     = Some (derived_part example_date example_topic_name []
             @ 10 # BEFORE_NOTES @ 10 # asc ''AI is moving fast'' @ 10 # BETWEEN_REGIONS
             @ 10 # (IMPORTANCE_COMMENT @ [10, 10] @ asc ''5'') @ [10])
   \<and> extract_human
         (derived_part example_date example_topic_name []
            @ 10 # BEFORE_NOTES @ 10 # asc ''AI is moving fast'' @ 10 # BETWEEN_REGIONS
            @ 10 # (IMPORTANCE_COMMENT @ [10, 10] @ asc ''5'') @ [10])
     = (asc ''AI is moving fast'',
        IMPORTANCE_COMMENT @ [10, 10] @ IMPORTANCE_COMMENT @ [10, 10] @ asc ''5'')
   \<and> extract_human (human_record edited_notes (asc ''5''))
     = (edited_notes, IMPORTANCE_COMMENT @ [10, 10] @ asc ''5'')
   \<and> save_topic_classification
       [(example_topic_id, example_date) \<mapsto> human_record edited_notes (asc ''5'')]
       example_date example_topic_id example_topic_name [] True (example_topic_id, example_date)
     = Some (derived_part example_date example_topic_name []
             @ 10 # BEFORE_NOTES
             @ 10 # (asc ''keep '' @ IMPORTANCE_COMMENT @ [10, 10] @ asc ''5'')
             @ 10 # BETWEEN_REGIONS
             @ 10 # (IMPORTANCE_COMMENT @ [10, 10] @ asc ''5'') @ [10])
   \<and> \<not> contains edited_notes
         (derived_part example_date example_topic_name []
             @ 10 # BEFORE_NOTES
             @ 10 # (asc ''keep '' @ IMPORTANCE_COMMENT @ [10, 10] @ asc ''5'')
             @ 10 # BETWEEN_REGIONS
             @ 10 # (IMPORTANCE_COMMENT @ [10, 10] @ asc ''5'') @ [10])"
proof -
  let ?I = "IMPORTANCE_COMMENT @ [10, 10] @ asc ''5''"
  let ?d = "derived_part example_date example_topic_name []"
  let ?plain = "asc ''AI is moving fast''"
  have plain_clean: "\<not> contains IMPORTANCE_BOXES ?plain"
    by (simp add: record_literals)
  have plain_ne: "?plain \<noteq> []" "?I \<noteq> []"
    by (simp_all add: asc_def)
  have "append_to_existing (human_record ?plain (asc ''5'')) example_topic_id example_date []
          = ?d @ 10 # BEFORE_NOTES @ 10 # ?plain @ 10 # BETWEEN_REGIONS @ 10 # ?I @ [10]"
    using append_to_existing_shape [OF human_record_regions(1) plain_clean] plain_ne
    by (simp add: human_record_name splice_regions_absent example_derived_part_clean)
  then have plain_saved: "save_topic_classification
       [(example_topic_id, example_date) \<mapsto> human_record ?plain (asc ''5'')]
       example_date example_topic_id example_topic_name [] True (example_topic_id, example_date)
     = Some (?d @ 10 # BEFORE_NOTES @ 10 # ?plain @ 10 # BETWEEN_REGIONS @ 10 # ?I @ [10])"
    by (simp add: save_topic_classification_def)
  have plain_after: "extract_human
         (?d @ 10 # BEFORE_NOTES @ 10 # ?plain @ 10 # BETWEEN_REGIONS @ 10 # ?I @ [10])
     = (?plain, IMPORTANCE_COMMENT @ [10, 10] @ IMPORTANCE_COMMENT @ [10, 10] @ asc ''5'')"
    unfolding empty_derived_part
    by (simp add: extract_human_def strip_def is_space_def record_literals)
  have ne: "edited_notes \<noteq> []"
    by (simp add: edited_notes_def record_literals)
  have r1: "replace_all NOTES_PLACEHOLDER edited_notes
              (?d @ 10 # BEFORE_NOTES @ 10 # NOTES_PLACEHOLDER @ 10 # BETWEEN_REGIONS
                 @ 10 # IMPORTANCE_BOXES @ [10])
            = ?d @ 10 # BEFORE_NOTES @ 10 # edited_notes @ 10 # BETWEEN_REGIONS
                 @ 10 # IMPORTANCE_BOXES @ [10]"
    by (simp add: replace_all_five_lines placeholder_facts replace_all_absent replace_all_whole
          example_derived_part_clean)
  have inner: "replace_all IMPORTANCE_BOXES ?I edited_notes = asc ''keep '' @ ?I"
    using replace_all_separator [of IMPORTANCE_BOXES 32 ?I "asc ''keep''" IMPORTANCE_BOXES]
    by (simp add: edited_notes_def boxes_facts replace_all_whole replace_all_absent record_literals)
  have r2: "replace_all IMPORTANCE_BOXES ?I
              (?d @ 10 # BEFORE_NOTES @ 10 # edited_notes @ 10 # BETWEEN_REGIONS
                 @ 10 # IMPORTANCE_BOXES @ [10])
            = ?d @ 10 # BEFORE_NOTES @ 10 # (asc ''keep '' @ ?I) @ 10 # BETWEEN_REGIONS
                 @ 10 # ?I @ [10]"
    by (simp only: replace_all_five_lines [OF boxes_facts(1,2)]
          replace_all_absent [OF boxes_facts(1)] boxes_facts replace_all_whole [OF boxes_facts(1)]
          example_derived_part_clean inner not_False_eq_True)
  have "append_to_existing (human_record edited_notes (asc ''5'')) example_topic_id example_date []
          = ?d @ 10 # BEFORE_NOTES @ 10 # (asc ''keep '' @ ?I) @ 10 # BETWEEN_REGIONS
                 @ 10 # ?I @ [10]"
    using ne plain_ne(2) r1 r2
    by (simp add: append_to_existing_def human_record_regions human_record_name
          generate_markdown_shape)
  then have saved: "save_topic_classification
       [(example_topic_id, example_date) \<mapsto> human_record edited_notes (asc ''5'')]
       example_date example_topic_id example_topic_name [] True (example_topic_id, example_date)
     = Some (?d @ 10 # BEFORE_NOTES @ 10 # (asc ''keep '' @ ?I) @ 10 # BETWEEN_REGIONS
                 @ 10 # ?I @ [10])"
    by (simp add: save_topic_classification_def)
  have lost: "\<not> contains edited_notes
         (?d @ 10 # BEFORE_NOTES @ 10 # (asc ''keep '' @ ?I) @ 10 # BETWEEN_REGIONS
                 @ 10 # ?I @ [10])"
    unfolding empty_derived_part
    by (simp add: edited_notes_def record_literals)
  from human_record_regions(1) plain_saved plain_after human_record_regions(2) saved lost
  show ?thesis
    by (intro conjI)
qed

text \<open>
  C1, on the code. The first call creates the file of a (topic, date), the second call saves
  the same items again in append mode. Whenever the derived part does not contain the notes
  header, the file after the second call differs from the file after the first:
  \<^verbatim>\<open>_append_to_existing\<close> reads the importance region together with its HTML comment and
  puts both in place of the line of check boxes alone, so the comment is there twice (and
  once more after every further call). Saving twice is not idempotent.
\<close>

theorem save_twice_drift:
  assumes "fs (topic_id, date) = None"
    and "\<not> contains NOTES_HEADER (derived_part date topic_name items)"
  shows "save_topic_classification
           (save_topic_classification fs date topic_id topic_name items True)
           date topic_id topic_name items True (topic_id, date)
         \<noteq> save_topic_classification fs date topic_id topic_name items True (topic_id, date)"
proof -
  let ?d = "derived_part date topic_name items"
  let ?first = "generate_markdown date topic_name items"
  let ?S = "10 # 10 # IMPORTANCE_COMMENT @ 10 # 10 # IMPORTANCE_BOXES @ [10]"
  let ?I = "IMPORTANCE_COMMENT @ [10, 10] @ IMPORTANCE_BOXES"
  have first: "save_topic_classification fs date topic_id topic_name items True (topic_id, date)
                 = Some ?first"
    using assms(1) by (simp add: save_topic_classification_def)
  have regions: "extract_human ?first = (NOTES_PLACEHOLDER, ?I)"
    unfolding generate_markdown_shape by (rule fresh_regions [OF assms(2)])
  obtain P where second: "append_to_existing ?first topic_id date items
      = P @ 10 # BEFORE_NOTES @ 10 # NOTES_PLACEHOLDER @ 10 # BETWEEN_REGIONS @ 10 # ?I @ [10]"
    using append_to_existing_shape [OF regions boxes_facts(5)]
    by (simp add: placeholder_facts record_literals)
  have a: "?first = (?d @ 10 # BEFORE_NOTES @ 10 # NOTES_PLACEHOLDER @ [10, 10, 10]
                       @ butlast IMPORTANCE_HEADER) @ last IMPORTANCE_HEADER # ?S"
    unfolding generate_markdown_shape by (simp add: BETWEEN_REGIONS_def IMPORTANCE_HEADER_def asc_def)
  have b: "append_to_existing ?first topic_id date items
             = (P @ 10 # BEFORE_NOTES @ 10 # NOTES_PLACEHOLDER @ 10 # [10, 10] @ IMPORTANCE_HEADER
                  @ [10, 10] @ butlast IMPORTANCE_COMMENT) @ last IMPORTANCE_COMMENT # ?S"
    unfolding second by (simp add: BETWEEN_REGIONS_def IMPORTANCE_COMMENT_def asc_def)
  have "last IMPORTANCE_HEADER \<noteq> last IMPORTANCE_COMMENT"
    by (simp add: record_literals)
  then have "(P @ 10 # BEFORE_NOTES @ 10 # NOTES_PLACEHOLDER @ 10 # [10, 10] @ IMPORTANCE_HEADER
                  @ [10, 10] @ butlast IMPORTANCE_COMMENT) @ last IMPORTANCE_COMMENT # ?S
             \<noteq> (?d @ 10 # BEFORE_NOTES @ 10 # NOTES_PLACEHOLDER @ [10, 10, 10]
                       @ butlast IMPORTANCE_HEADER) @ last IMPORTANCE_HEADER # ?S"
    by (rule differ_before_common_suffix [OF not_sym])
  then have "append_to_existing ?first topic_id date items \<noteq> ?first"
    by (subst b, subst a)
  with first show ?thesis
    by (simp add: save_topic_classification_def)
qed

text \<open>
  The two files for the item of the end-to-end example, written out.
\<close>

theorem save_twice_not_idempotent:
  "save_topic_classification Map.empty example_date example_topic_id example_topic_name
       [example_item] True (example_topic_id, example_date)
     = Some (derived_part example_date example_topic_name [example_item]
             @ 10 # BEFORE_NOTES @ 10 # NOTES_PLACEHOLDER @ 10 # BETWEEN_REGIONS
             @ 10 # IMPORTANCE_BOXES @ [10])
   \<and> save_topic_classification
       (save_topic_classification Map.empty example_date example_topic_id example_topic_name
          [example_item] True)
       example_date example_topic_id example_topic_name [example_item] True
       (example_topic_id, example_date)
     = Some (derived_part example_date example_topic_name [example_item]
             @ 10 # BEFORE_NOTES @ 10 # NOTES_PLACEHOLDER @ 10 # BETWEEN_REGIONS
             @ 10 # (IMPORTANCE_COMMENT @ [10, 10] @ IMPORTANCE_BOXES) @ [10])
   \<and> save_topic_classification
       (save_topic_classification Map.empty example_date example_topic_id example_topic_name
          [example_item] True)
       example_date example_topic_id example_topic_name [example_item] True
       (example_topic_id, example_date)
     \<noteq> save_topic_classification Map.empty example_date example_topic_id example_topic_name
         [example_item] True (example_topic_id, example_date)"
proof -
  let ?d = "derived_part example_date example_topic_name [example_item]"
  let ?fs1 = "save_topic_classification Map.empty example_date example_topic_id
                example_topic_name [example_item] True"
  have first: "?fs1 (example_topic_id, example_date)
                 = Some (generate_markdown example_date example_topic_name [example_item])"
    by (simp add: save_topic_classification_def)
  have "append_to_existing (generate_markdown example_date example_topic_name [example_item])
          example_topic_id example_date [example_item]
        = ?d @ 10 # BEFORE_NOTES @ 10 # NOTES_PLACEHOLDER @ 10 # BETWEEN_REGIONS
             @ 10 # (IMPORTANCE_COMMENT @ [10, 10] @ IMPORTANCE_BOXES) @ [10]"
    using append_to_existing_shape [OF fresh_record_regions boxes_facts(5)]
    by (simp add: fresh_record_name splice_regions_absent example_derived_part_clean
          placeholder_facts)
  with first have second: "save_topic_classification ?fs1 example_date example_topic_id
          example_topic_name [example_item] True (example_topic_id, example_date)
        = Some (?d @ 10 # BEFORE_NOTES @ 10 # NOTES_PLACEHOLDER @ 10 # BETWEEN_REGIONS
             @ 10 # (IMPORTANCE_COMMENT @ [10, 10] @ IMPORTANCE_BOXES) @ [10])"
    by (simp add: save_topic_classification_def)
  have clean: "\<not> contains NOTES_HEADER ?d"
    unfolding example_derived_part by (simp add: record_literals)
  have "Map.empty (example_topic_id, example_date) = (None :: ustr option)"
    by simp
  then have differ: "save_topic_classification ?fs1 example_date example_topic_id
          example_topic_name [example_item] True (example_topic_id, example_date)
        \<noteq> ?fs1 (example_topic_id, example_date)"
    using clean by (rule save_twice_drift)
  from first second differ show ?thesis
    by (simp add: generate_markdown_shape)
qed

section \<open>What a run of the timeline writes\<close>

lemma py_join_cons_char: "py_join sep ((c # p) # ps) = c # py_join sep (p # ps)"
  by (cases ps) simp_all

lemma py_join_py_split: "sep \<noteq> [] \<Longrightarrow> py_join sep (py_split sep s) = s"
proof (induction sep s rule: py_split.induct)
  case (1 sep)
  then show ?case by simp
next
  case (2 sep c cs)
  show ?case
  proof (cases "prefix sep (c # cs)")
    case True
    then obtain rest where r: "c # cs = sep @ rest"
      by (auto simp: prefix_def)
    then have d: "drop (length sep) (c # cs) = rest"
      by simp
    obtain p ps where ps: "py_split sep rest = p # ps"
      using py_split_not_empty [of sep rest] by (cases "py_split sep rest") auto
    have "py_join sep (py_split sep rest) = rest"
      using 2(1) True \<open>sep \<noteq> []\<close> d by simp
    then have "py_join sep ([] # py_split sep rest) = sep @ rest"
      using ps by simp
    then show ?thesis
      using True \<open>sep \<noteq> []\<close> d r by (simp del: py_split.simps add: py_split_at_match)
  next
    case False
    obtain p ps where ps: "py_split sep cs = p # ps"
      using py_split_not_empty [of sep cs] by (cases "py_split sep cs") auto
    have "py_join sep (py_split sep cs) = cs"
      using 2(2) False \<open>sep \<noteq> []\<close> by simp
    then show ?thesis
      using False ps by (simp add: py_join_cons_char)
  qed
qed

lemma header_end_line_first:
  "header_end_line ls i =
     (if list_ex (prefix [35]) ls
      then i + Suc (length (takeWhile (\<lambda>l. \<not> prefix [35] l) ls)) else 0)"
  by (induction ls arbitrary: i) simp_all

lemma splice_timeline_inserts:
  fixes existing new_content :: ustr
  defines "ls \<equiv> py_split [10] existing"
  defines "h \<equiv> (if list_ex (prefix [35]) ls
                 then Suc (length (takeWhile (\<lambda>l. \<not> prefix [35] l) ls)) else 0)"
  shows "splice_timeline existing new_content
           = py_join [10] (take h ls) @ [10] @ new_content @ py_join [10] (drop h ls)"
    and "existing = py_join [10] (take h ls) @ py_join [10] (drop h ls)
         \<or> existing = py_join [10] (take h ls) @ [10] @ py_join [10] (drop h ls)"
proof -
  show "splice_timeline existing new_content
           = py_join [10] (take h ls) @ [10] @ new_content @ py_join [10] (drop h ls)"
    by (simp add: splice_timeline_def ls_def h_def header_end_line_first Let_def)
  have whole: "py_join [10] ls = existing"
    by (simp add: ls_def py_join_py_split)
  show "existing = py_join [10] (take h ls) @ py_join [10] (drop h ls)
         \<or> existing = py_join [10] (take h ls) @ [10] @ py_join [10] (drop h ls)"
  proof (cases "take h ls = [] \<or> drop h ls = []")
    case True
    then show ?thesis
    proof
      assume "take h ls = []"
      then have "drop h ls = ls"
        by (metis append_Nil append_take_drop_id)
      moreover have "py_join [10] (take h ls) = []"
        unfolding \<open>take h ls = []\<close> by simp
      ultimately show ?thesis
        using whole by simp
    next
      assume "drop h ls = []"
      then have "take h ls = ls"
        by (metis append_Nil2 append_take_drop_id)
      moreover have "py_join [10] (drop h ls) = []"
        unfolding \<open>drop h ls = []\<close> by simp
      ultimately show ?thesis
        using whole by simp
    qed
  next
    case False
    then have "take h ls \<noteq> []" and "drop h ls \<noteq> []"
      by blast+
    then have "py_join [10] (take h ls @ drop h ls)
                 = py_join [10] (take h ls) @ [10] @ py_join [10] (drop h ls)"
      by (rule py_join_append)
    then have "py_join [10] ls = py_join [10] (take h ls) @ [10] @ py_join [10] (drop h ls)"
      by (simp only: append_take_drop_id)
    with whole show ?thesis by simp
  qed
qed

lemma keys_dict_append: "fst ` set (dict_append k v d) = insert k (fst ` set d)"
  by (induction d) (force split: if_splits)+

lemma keys_group_by_date_loop:
  "fst ` set (group_by_date_loop ts g) = fst ` set g \<union> trend_date ` set ts"
  by (induction ts arbitrary: g) (auto simp: keys_dict_append)

lemma bucket_group_by_date_loop:
  "bucket (group_by_date_loop ts g) d = bucket g d @ filter (\<lambda>t. trend_date t = d) ts"
  by (induction ts arbitrary: g) (auto simp: bucket_dict_append)

lemma contains_concat_member: "x \<in> set xs \<Longrightarrow> contains x (concat xs)"
proof -
  assume "x \<in> set xs"
  then obtain pre post where "xs = pre @ x # post"
    by (auto dest: split_list)
  then have "concat xs = concat pre @ x @ concat post"
    by simp
  then show ?thesis
    by (simp add: contains_middle)
qed

lemma contains_append_left: "contains x y \<Longrightarrow> contains x (pre @ y)"
  by (induction pre) simp_all

lemma contains_trans: "contains a b \<Longrightarrow> contains b c \<Longrightarrow> contains a c"
  unfolding contains_iff_sublist by (rule sublist_order.order.trans)

lemma render_new_content_has_trend:
  assumes "t \<in> set ts"
  shows "contains (render_trend t) (render_new_content ts)"
proof -
  let ?g = "group_by_date ts"
  let ?d = "trend_date t"
  have "?d \<in> fst ` set ?g"
    using assms by (simp add: group_by_date_def keys_group_by_date_loop)
  then have "?d \<in> set (sorted_dates_desc ?g)"
    by (simp add: sorted_dates_desc_def)
  then have "render_date_section ?g ?d \<in> set (map (render_date_section ?g) (sorted_dates_desc ?g))"
    by simp
  then have sec: "contains (render_date_section ?g ?d) (render_new_content ts)"
    unfolding render_new_content_def Let_def by (rule contains_concat_member)
  have "bucket ?g ?d = filter (\<lambda>x. trend_date x = ?d) ts"
    by (simp add: group_by_date_def bucket_group_by_date_loop)
  with assms have "t \<in> set (bucket ?g ?d)"
    by simp
  then have "contains (render_trend t) (concat (map render_trend (bucket ?g ?d)))"
    by (intro contains_concat_member) simp
  then have "contains (render_trend t)
               (([10] @ asc ''## '' @ ?d @ [10]) @ concat (map render_trend (bucket ?g ?d)))"
    by (rule contains_append_left)
  then have "contains (render_trend t) (render_date_section ?g ?d)"
    by (simp add: render_date_section_def bucket_def)
  then show ?thesis
    using sec by (rule contains_trans)
qed

text \<open>
  C5 (as amended). \<open>existing_urls\<close> is what \<^verbatim>\<open>load_existing_urls\<close> reads from the timeline
  file: the URLs that follow a link marker, begin with \<^verbatim>\<open>http://\<close> or \<^verbatim>\<open>https://\<close> and run
  up to the next white space. The filter of \<^verbatim>\<open>generate_timeline\<close> keeps, in input order,
  exactly the candidates whose \<open>url\<close> is \<^verbatim>\<open>None\<close> or is not in \<open>existing_urls\<close>, and drops
  every candidate whose \<open>url\<close> is in it. For a configured topic nothing is written when no
  candidate is kept; otherwise the new content is rendered from the kept candidates alone
  and holds the entry of each of them, and the file written is: for a new file, the title
  line and the new content; for an existing file, the old text with a line feed and the
  new content put in after its first line that starts with \<^verbatim>\<open>#\<close> (at the very start when
  there is none, the line feed then taking the place of the one that ended that line when
  more lines follow), every other character of the old text staying where it was.
\<close>

theorem timeline_dedup_keeps_exactly:
  "new_trends_loop (load_existing_urls timeline_file) trends [] =
     filter (\<lambda>t. case trend_url t of None \<Rightarrow> True | Some u \<Rightarrow> u \<notin> load_existing_urls timeline_file) trends
   \<and> (let kept = filter (\<lambda>t. case trend_url t of None \<Rightarrow> True
                                | Some u \<Rightarrow> u \<notin> load_existing_urls (fs topic_id)) trends;
           new_content = render_new_content kept
       in generate_timeline topics fs topic_id trends =
            (case topics topic_id of
               None \<Rightarrow> Inl KeyError
             | Some cfg \<Rightarrow>
                 (case rt_name cfg of
                    None \<Rightarrow> Inl KeyError
                  | Some topic_name \<Rightarrow>
                      if kept = [] then Inr fs
                      else Inr (fs(topic_id \<mapsto>
                        (case fs topic_id of
                           Some existing_content \<Rightarrow> splice_timeline existing_content new_content
                         | None \<Rightarrow> asc ''# '' @ topic_name @ [10] @ new_content)))))
          \<and> (\<forall>t \<in> set kept. contains (render_trend t) new_content)
          \<and> (\<forall>t \<in> set trends. t \<notin> set kept \<longleftrightarrow>
                (\<exists>u. trend_url t = Some u \<and> u \<in> load_existing_urls (fs topic_id)))
          \<and> (\<forall>existing_content.
                (let ls = py_split [10] existing_content;
                     h = (if list_ex (prefix [35]) ls
                          then Suc (length (takeWhile (\<lambda>l. \<not> prefix [35] l) ls)) else 0);
                     before = py_join [10] (take h ls);
                     after = py_join [10] (drop h ls)
                 in splice_timeline existing_content new_content
                      = before @ [10] @ new_content @ after
                    \<and> (existing_content = before @ after
                       \<or> existing_content = before @ [10] @ after))))"
proof -
  let ?kept = "filter (\<lambda>t. case trend_url t of None \<Rightarrow> True
                            | Some u \<Rightarrow> u \<notin> load_existing_urls (fs topic_id)) trends"
  have a: "new_trends_loop (load_existing_urls timeline_file) trends [] =
     filter (\<lambda>t. case trend_url t of None \<Rightarrow> True | Some u \<Rightarrow> u \<notin> load_existing_urls timeline_file) trends"
    by (simp add: new_trends_loop_filter)
  have b: "generate_timeline topics fs topic_id trends =
            (case topics topic_id of
               None \<Rightarrow> Inl KeyError
             | Some cfg \<Rightarrow>
                 (case rt_name cfg of
                    None \<Rightarrow> Inl KeyError
                  | Some topic_name \<Rightarrow>
                      if ?kept = [] then Inr fs
                      else Inr (fs(topic_id \<mapsto>
                        (case fs topic_id of
                           Some existing_content \<Rightarrow>
                             splice_timeline existing_content (render_new_content ?kept)
                         | None \<Rightarrow> asc ''# '' @ topic_name @ [10] @ render_new_content ?kept)))))"
    by (simp add: new_trends_loop_filter generate_timeline_def Let_def split: option.splits)
  have c: "\<forall>t \<in> set ?kept. contains (render_trend t) (render_new_content ?kept)"
    using render_new_content_has_trend by blast
  have d: "\<forall>t \<in> set trends. t \<notin> set ?kept \<longleftrightarrow>
                (\<exists>u. trend_url t = Some u \<and> u \<in> load_existing_urls (fs topic_id))"
    by (auto split: option.splits)
  have e: "\<forall>existing_content.
                (let ls = py_split [10] existing_content;
                     h = (if list_ex (prefix [35]) ls
                          then Suc (length (takeWhile (\<lambda>l. \<not> prefix [35] l) ls)) else 0);
                     before = py_join [10] (take h ls);
                     after = py_join [10] (drop h ls)
                 in splice_timeline existing_content (render_new_content ?kept)
                      = before @ [10] @ render_new_content ?kept @ after
                    \<and> (existing_content = before @ after
                       \<or> existing_content = before @ [10] @ after))"
    unfolding Let_def using splice_timeline_inserts by blast
  from a b c d e show ?thesis
    unfolding Let_def by (intro conjI)
qed

text \<open>
  The example of the specification: the timeline records \<^verbatim>\<open>u1\<close> and \<^verbatim>\<open>u2\<close>, the batch has
  the urls \<^verbatim>\<open>u1\<close>, \<^verbatim>\<open>u3\<close>, \<^verbatim>\<open>None\<close>, \<^verbatim>\<open>None\<close>; exactly the last three candidates are kept,
  and the new content holds the entry of the candidate with \<^verbatim>\<open>u3\<close>.
\<close>

theorem timeline_dedup_example:
  "new_trends_loop (load_existing_urls (Some example_timeline))
     [mk_trend ''a'' (Some ''http://x/u1'') ''2026-01-20'',
      mk_trend ''b'' (Some ''http://x/u3'') ''2026-01-20'',
      mk_trend ''c'' None ''2026-01-20'',
      mk_trend ''d'' None ''2026-01-20''] [] =
     [mk_trend ''b'' (Some ''http://x/u3'') ''2026-01-20'',
      mk_trend ''c'' None ''2026-01-20'',
      mk_trend ''d'' None ''2026-01-20'']
   \<and> contains (render_trend (mk_trend ''b'' (Some ''http://x/u3'') ''2026-01-20''))
       (render_new_content
          [mk_trend ''b'' (Some ''http://x/u3'') ''2026-01-20'',
           mk_trend ''c'' None ''2026-01-20'',
           mk_trend ''d'' None ''2026-01-20''])"
proof -
  let ?ts = "[mk_trend ''a'' (Some ''http://x/u1'') ''2026-01-20'',
              mk_trend ''b'' (Some ''http://x/u3'') ''2026-01-20'',
              mk_trend ''c'' None ''2026-01-20'',
              mk_trend ''d'' None ''2026-01-20'']"
  let ?fs = "[asc ''ai-tech'' \<mapsto> example_timeline]"
  let ?keep = "\<lambda>t. case trend_url t of None \<Rightarrow> True
                    | Some u \<Rightarrow> u \<notin> load_existing_urls (?fs (asc ''ai-tech''))"
  have urls: "load_existing_urls (Some example_timeline) = {asc ''http://x/u1'', asc ''https://x/u2''}"
    by (simp add: load_existing_urls_def example_timeline_urls)
  have kept: "filter ?keep ?ts =
                [mk_trend ''b'' (Some ''http://x/u3'') ''2026-01-20'',
                 mk_trend ''c'' None ''2026-01-20'', mk_trend ''d'' None ''2026-01-20'']"
    using urls by (simp add: mk_trend_def asc_def)
  note inst = timeline_dedup_keeps_exactly
               [where timeline_file = "Some example_timeline" and fs = ?fs and topic_id = "asc ''ai-tech''"
                  and trends = ?ts, unfolded Let_def]
  have first: "new_trends_loop (load_existing_urls (Some example_timeline)) ?ts [] =
                 [mk_trend ''b'' (Some ''http://x/u3'') ''2026-01-20'',
                  mk_trend ''c'' None ''2026-01-20'', mk_trend ''d'' None ''2026-01-20'']"
  proof -
    have "filter (\<lambda>t. case trend_url t of None \<Rightarrow> True
                       | Some u \<Rightarrow> u \<notin> load_existing_urls (Some example_timeline)) ?ts =
            [mk_trend ''b'' (Some ''http://x/u3'') ''2026-01-20'',
             mk_trend ''c'' None ''2026-01-20'', mk_trend ''d'' None ''2026-01-20'']"
      using urls by (simp add: mk_trend_def asc_def)
    then show ?thesis
      unfolding inst [THEN conjunct1] .
  qed
  have "\<forall>t \<in> set (filter ?keep ?ts). contains (render_trend t) (render_new_content (filter ?keep ?ts))"
    using inst [THEN conjunct2] by blast
  then have "contains (render_trend (mk_trend ''b'' (Some ''http://x/u3'') ''2026-01-20''))
               (render_new_content (filter ?keep ?ts))"
    unfolding kept by simp
  then have second: "contains (render_trend (mk_trend ''b'' (Some ''http://x/u3'') ''2026-01-20''))
       (render_new_content
          [mk_trend ''b'' (Some ''http://x/u3'') ''2026-01-20'',
           mk_trend ''c'' None ''2026-01-20'',
           mk_trend ''d'' None ''2026-01-20''])"
    unfolding kept .
  from first second show ?thesis
    by (rule conjI)
qed

text \<open>
  As the specification states it, for every URL already recorded in the file, the
  property fails. The first run writes the timeline of a trend with an \<^verbatim>\<open>ftp\<close> URL, so the
  file holds the link line of that URL; nothing is read back from it, since the pattern
  asks for \<^verbatim>\<open>http\<close> or \<^verbatim>\<open>https\<close>. On the second run the same candidate is kept, not dropped,
  and its entry, with the link line, is put in the file a second time.
\<close>

theorem timeline_dedup_counterexample:
  "generate_timeline example_topics Map.empty (asc ''ai-tech'') [ftp_trend]
     = Inr [asc ''ai-tech'' \<mapsto> ftp_timeline]
   \<and> trend_url ftp_trend = Some (asc ''ftp://x/u9'')
   \<and> contains (LINK_MARK @ asc ''ftp://x/u9'' @ [10]) ftp_timeline
   \<and> new_trends_loop (load_existing_urls (Some ftp_timeline)) [ftp_trend] [] = [ftp_trend]
   \<and> generate_timeline example_topics [asc ''ai-tech'' \<mapsto> ftp_timeline] (asc ''ai-tech'')
         [ftp_trend]
     = Inr [asc ''ai-tech'' \<mapsto> ftp_timeline_twice]
   \<and> ftp_timeline_twice = ftp_timeline @ render_new_content [ftp_trend]
   \<and> contains (LINK_MARK @ asc ''ftp://x/u9'' @ [10]) (render_new_content [ftp_trend])"
proof -
  have first: "generate_timeline example_topics Map.empty (asc ''ai-tech'') [ftp_trend]
                 = Inr [asc ''ai-tech'' \<mapsto> ftp_timeline]"
    by (simp add: generate_timeline_def example_topics_def load_existing_urls_def
          ftp_timeline_def ftp_trend_def mk_trend_def asc_def)
  have url: "trend_url ftp_trend = Some (asc ''ftp://x/u9'')"
    by (simp add: ftp_trend_def mk_trend_def)
  have recorded: "contains (LINK_MARK @ asc ''ftp://x/u9'' @ [10]) ftp_timeline"
    by (simp add: ftp_timeline_def ftp_trend_def timeline_render timeline_literals)
  have "findall_urls ftp_timeline = []"
    by (simp add: ftp_timeline_def ftp_trend_def timeline_render timeline_literals
          url_match_def is_space_def)
  then have read: "load_existing_urls (Some ftp_timeline) = {}"
    by (simp add: load_existing_urls_def)
  then have kept: "new_trends_loop (load_existing_urls (Some ftp_timeline)) [ftp_trend] []
                     = [ftp_trend]"
    by (simp add: ftp_trend_def mk_trend_def)
  have spliced: "splice_timeline ftp_timeline (render_new_content [ftp_trend])
                   = ftp_timeline_twice"
    by (simp add: splice_timeline_def ftp_timeline_def ftp_timeline_twice_def ftp_trend_def
          timeline_render timeline_literals)
  have second: "generate_timeline example_topics [asc ''ai-tech'' \<mapsto> ftp_timeline]
                  (asc ''ai-tech'') [ftp_trend]
                = Inr [asc ''ai-tech'' \<mapsto> ftp_timeline_twice]"
    using kept spliced
    by (simp add: generate_timeline_def example_topics_def)
  have twice: "ftp_timeline_twice = ftp_timeline @ render_new_content [ftp_trend]"
    by (simp add: ftp_timeline_def ftp_timeline_twice_def)
  have again: "contains (LINK_MARK @ asc ''ftp://x/u9'' @ [10]) (render_new_content [ftp_trend])"
    by (simp add: ftp_trend_def timeline_render timeline_literals)
  from first url recorded kept second twice again show ?thesis
    by (intro conjI)
qed

end
